theory Spec2Isabelle
  imports Complex_Main "HOL-Library.Sublist" "HOL-Library.AList"
begin

section \<open>Data model\<close>

text \<open>
  JavaScript strings are modelled as \<^typ>\<open>string\<close>; \<open>length\<close> is the source's
  \<open>.length\<close>. Values of type \<open>Record<string, unknown>\<close> (tool inputs) are JSON values.
\<close>

datatype json =
    JNull
  | JBool bool
  | JNum real
  | JStr string
  | JArr "json list"
  | JObj "(string \<times> json) list"

text \<open>
  Modelled from the spec: the type declarations of \<open>types.ts\<close> (not among the files at
  hand), after section 3 of the spec and the fields that \<open>expand.ts\<close>, \<open>events.ts\<close>
  and the tests read and write. A message part is an object with a \<open>type\<close> tag and
  optional \<open>text\<close>, \<open>tool\<close>, \<open>input\<close> and \<open>output\<close> fields; the metadata fields
  are optional arrays; \<open>childRefs\<close> is a sequence of chunk ids, empty for a chunk of
  depth 0.
\<close>

datatype PartType = TextPart | ReasoningPart | ToolPart | FilePart

record ChunkMessagePart =
  part_type :: PartType
  part_text :: "string option"
  part_tool :: "string option"
  part_input :: "json option"
  part_output :: "string option"

datatype Role = User | Assistant

record ChunkMessage =
  msg_id :: string
  msg_role :: Role
  msg_parts :: "ChunkMessagePart list"
  msg_timestamp :: int

record ChunkMetadata =
  tools_used :: "string list option"
  files_modified :: "string list option"
  outcome :: "string option"

record ChunkContent =
  messages :: "ChunkMessage list"
  metadata :: ChunkMetadata

datatype ChunkStatus = Active | Compacted

record Chunk =
  chunk_id :: string
  sessionId :: string
  content :: ChunkContent
  summary :: "string option"
  status :: ChunkStatus
  depth :: nat
  childRefs :: "string list"
  createdAt :: int

text \<open>
  Functions of the JavaScript runtime that the tools call: \<open>Date.prototype.toISOString\<close>
  (on a number of milliseconds; the timestamps of the store are seconds since the epoch,
  for which it is defined) and \<open>JSON.stringify(x, null, 2)\<close>.
\<close>

record host =
  toISOString :: "int \<Rightarrow> string"
  stringifyPretty :: "json \<Rightarrow> string"

section \<open>String helpers\<close>

definition nl :: string where
  "nl = [CHR 0x0A]"

text \<open>\<open>Array.prototype.join\<close>.\<close>

fun join :: "string \<Rightarrow> string list \<Rightarrow> string" where
  "join sep [] = []"
| "join sep [x] = x"
| "join sep (x # y # ys) = x @ sep @ join sep (y # ys)"

text \<open>Decimal rendering of a non-negative integer, as a template literal does.\<close>

definition digit :: "nat \<Rightarrow> char" where
  "digit d = char_of (48 + d)"

function showNat :: "nat \<Rightarrow> string" where
  "showNat n = (if n < 10 then [digit n] else showNat (n div 10) @ [digit (n mod 10)])"
  by pat_completeness auto
termination
  by (relation "measure id") auto

declare showNat.simps [simp del]

definition statusName :: "ChunkStatus \<Rightarrow> string" where
  "statusName s = (case s of Active \<Rightarrow> ''active'' | Compacted \<Rightarrow> ''compacted'')"

definition roleName :: "Role \<Rightarrow> string" where
  "roleName r = (case r of User \<Rightarrow> ''user'' | Assistant \<Rightarrow> ''assistant'')"

text \<open>JavaScript truthiness of an optional string: defined and non-empty.\<close>

definition truthy :: "string option \<Rightarrow> bool" where
  "truthy s = (case s of None \<Rightarrow> False | Some t \<Rightarrow> t \<noteq> [])"

text \<open>\<open>s || ''\<close> on an optional string.\<close>

definition orEmpty :: "string option \<Rightarrow> string" where
  "orEmpty s = (case s of None \<Rightarrow> [] | Some t \<Rightarrow> t)"

section \<open>The expand tool (\<open>tools/expand.ts\<close>)\<close>

definition CHARS_PER_TOKEN :: nat where
  "CHARS_PER_TOKEN = 4"

definition LARGE_RESPONSE_TOKEN_THRESHOLD :: nat where
  "LARGE_RESPONSE_TOKEN_THRESHOLD = 4000"

text \<open>\<open>Math.ceil(text.length / CHARS_PER_TOKEN)\<close>: a division of numbers, then the ceiling.\<close>

definition estimateTokens :: "string \<Rightarrow> nat" where
  "estimateTokens text = nat \<lceil>real (length text) / real CHARS_PER_TOKEN\<rceil>"

definition formatMessagePart :: "host \<Rightarrow> ChunkMessagePart \<Rightarrow> string" where
  "formatMessagePart h part =
     (case part_type part of
        TextPart \<Rightarrow> orEmpty (part_text part)
      | ReasoningPart \<Rightarrow>
          (if truthy (part_text part)
           then ''[Reasoning: '' @ orEmpty (part_text part) @ '']'' else [])
      | ToolPart \<Rightarrow>
          (if \<not> truthy (part_tool part) then []
           else
             let lines0 = [''**Tool: '' @ orEmpty (part_tool part) @ ''**''];
                 lines1 =
                   (case part_input part of
                      None \<Rightarrow> lines0
                    | Some inp \<Rightarrow>
                        let inputStr = stringifyPretty h inp;
                            truncatedInput =
                              (if length inputStr > 500
                               then take 500 inputStr @ nl @ ''... (truncated)''
                               else inputStr)
                        in lines0 @ [''Input:'' @ nl @ ''```json'' @ nl @ truncatedInput @ nl @ ''```'']);
                 lines2 =
                   (if truthy (part_output part)
                    then
                      let out = orEmpty (part_output part);
                          truncatedOutput =
                            (if length out > 2000
                             then take 2000 out @ nl @ ''... (truncated)''
                             else out)
                      in lines1 @ [''Output:'' @ nl @ ''```'' @ nl @ truncatedOutput @ nl @ ''```'']
                    else lines1)
             in join nl lines2)
      | FilePart \<Rightarrow>
          (if truthy (part_text part)
           then ''[File: '' @ orEmpty (part_text part) @ '']'' else []))"

text \<open>The inner loop of \<open>formatChunkContent\<close>: the non-empty formatted parts of a message.\<close>

definition formatParts :: "host \<Rightarrow> ChunkMessagePart list \<Rightarrow> string list" where
  "formatParts h ps = filter (\<lambda>s. s \<noteq> []) (map (formatMessagePart h) ps)"

definition formatMessage :: "host \<Rightarrow> ChunkMessage \<Rightarrow> string list" where
  "formatMessage h msg =
     (let timestamp = toISOString h (msg_timestamp msg * 1000)
      in (nl @ ''**'' @ roleName (msg_role msg) @ ''** ('' @ timestamp @ ''):'')
         # formatParts h (msg_parts msg))"

text \<open>\<open>xs && xs.length > 0\<close> on an optional array.\<close>

definition nonEmptyOpt :: "string list option \<Rightarrow> bool" where
  "nonEmptyOpt xs = (case xs of None \<Rightarrow> False | Some ys \<Rightarrow> ys \<noteq> [])"

definition orNil :: "string list option \<Rightarrow> string list" where
  "orNil xs = (case xs of None \<Rightarrow> [] | Some ys \<Rightarrow> ys)"

definition formatChunkContent :: "host \<Rightarrow> Chunk \<Rightarrow> string" where
  "formatChunkContent h chunk =
     (let header =
            [''## Chunk '' @ chunk_id chunk,
             ''Session: '' @ sessionId chunk,
             ''Status: '' @ statusName (status chunk) @ '', Depth: '' @ showNat (depth chunk)];
          summaryLines =
            (if truthy (summary chunk)
             then [nl @ ''### Summary'' @ nl @ orEmpty (summary chunk)] else []);
          messageCount = length (messages (content chunk));
          messageLines =
            (nl @ ''### Messages ('' @ showNat messageCount @ '')'')
            # concat (map (formatMessage h) (messages (content chunk)));
          filesModified = files_modified (metadata (content chunk));
          fileLines =
            (if nonEmptyOpt filesModified
             then [nl @ ''### Files Modified'' @ nl @ join nl (orNil filesModified)] else []);
          toolsUsed = tools_used (metadata (content chunk));
          toolLines =
            (if nonEmptyOpt toolsUsed
             then [nl @ ''### Tools Used'' @ nl @ join '', '' (orNil toolsUsed)] else [])
      in join nl (header @ summaryLines @ messageLines @ fileLines @ toolLines))"

definition formatChunkPreview :: "host \<Rightarrow> Chunk \<Rightarrow> string" where
  "formatChunkPreview h chunk =
     (let header =
            [''## Chunk '' @ chunk_id chunk,
             ''Session: '' @ sessionId chunk,
             ''Status: '' @ statusName (status chunk) @ '', Depth: '' @ showNat (depth chunk),
             ''Created: '' @ toISOString h (createdAt chunk * 1000)];
          summaryLines =
            (if truthy (summary chunk)
             then [nl @ ''### Summary'' @ nl @ orEmpty (summary chunk)] else []);
          messageCount = length (messages (content chunk));
          filesModified = length (orNil (files_modified (metadata (content chunk))));
          toolsUsed = orNil (tools_used (metadata (content chunk)));
          statLines =
            [nl @ ''### Stats'',
             ''- Messages: '' @ showNat messageCount,
             ''- Files modified: '' @ showNat filesModified]
            @ (if length toolsUsed > 0 then [''- Tools used: '' @ join '', '' toolsUsed] else []);
          fullContent = formatChunkContent h chunk;
          estimatedTokens = estimateTokens fullContent;
          sizeLines = [''- Estimated full size: ~'' @ showNat estimatedTokens @ '' tokens''];
          childLines =
            (if childRefs chunk \<noteq> []
             then [nl @ ''### Child Chunks'',
                   join nl (map (\<lambda>i. ''- '' @ i) (childRefs chunk))]
             else [])
      in join nl (header @ summaryLines @ statLines @ sizeLines @ childLines))"

section \<open>The chunk store\<close>

text \<open>
  Modelled from the spec: the chunk service of \<open>chunks/index.ts\<close> (its source is not
  part of the files at hand; only its callers and tests are). The store keeps the chunks in
  creation order and a counter from which fresh ids are drawn.
\<close>

record store =
  chunks :: "Chunk list"
  nextId :: nat

definition emptyStore :: store where
  "emptyStore = \<lparr>chunks = [], nextId = 0\<rparr>"

text \<open>
  Modelled from the spec: ids are unique, stable and prefixed to tell chunks from other
  entities. The model numbers them.
\<close>

definition idOf :: "nat \<Rightarrow> string" where
  "idOf n = ''ch_'' @ showNat n"

text \<open>Modelled from the spec: a chunk is retrieved by its id.\<close>

definition getChunk :: "store \<Rightarrow> string \<Rightarrow> Chunk option" where
  "getChunk st i = find (\<lambda>c. chunk_id c = i) (chunks st)"

definition emptyMetadata :: ChunkMetadata where
  "emptyMetadata = \<lparr>tools_used = None, files_modified = None, outcome = None\<rparr>"

text \<open>
  Modelled from the spec: \<open>create\<close> makes a chunk with \<open>status=active\<close>, \<open>depth=0\<close>, a fresh
  id and the current timestamp, and persists it.
\<close>

definition create :: "store \<Rightarrow> string \<Rightarrow> ChunkContent \<Rightarrow> int \<Rightarrow> store \<times> Chunk" where
  "create st sid cont now =
     (let c = \<lparr>chunk_id = idOf (nextId st), sessionId = sid, content = cont,
                summary = None, status = Active, depth = 0, childRefs = [],
                createdAt = now\<rparr>
      in (st\<lparr>chunks := chunks st @ [c], nextId := Suc (nextId st)\<rparr>, c))"

text \<open>
  Modelled from the spec: \<open>getActiveChunks(sessionId)\<close> is all chunks for the session with
  \<open>status=active\<close>, independent of depth.
\<close>

definition getActiveChunks :: "store \<Rightarrow> string \<Rightarrow> Chunk list" where
  "getActiveChunks st sid =
     filter (\<lambda>c. sessionId c = sid \<and> status c = Active) (chunks st)"

text \<open>
  Modelled from the spec: \<open>expand(chunkId, includeChildren?)\<close> is the empty list for an
  unknown id, the single resolved chunk without \<open>includeChildren\<close>, and the chunk followed
  by its direct children in \<open>childRefs\<close> order otherwise (one level only). A child id that
  resolves to no chunk contributes nothing.
\<close>

definition expand :: "store \<Rightarrow> string \<Rightarrow> bool \<Rightarrow> Chunk list" where
  "expand st cid includeChildren =
     (case getChunk st cid of
        None \<Rightarrow> []
      | Some c \<Rightarrow>
          (if includeChildren \<and> childRefs c \<noteq> []
           then c # List.map_filter (getChunk st) (childRefs c)
           else [c]))"

text \<open>
  Modelled from the spec: \<open>deleteSession(sessionId)\<close> removes every chunk of the session.
\<close>

definition deleteSession :: "store \<Rightarrow> string \<Rightarrow> store" where
  "deleteSession st sid = st\<lparr>chunks := filter (\<lambda>c. sessionId c \<noteq> sid) (chunks st)\<rparr>"

section \<open>The expand tool: \<open>expandTool.execute\<close>\<close>

record ExpandArgs =
  arg_chunk_id :: string
  arg_include_children :: "bool option"
  arg_preview_only :: "bool option"

text \<open>
  The object handed to \<open>JSON.stringify\<close>; a field that the source leaves out or sets to
  \<open>undefined\<close> is \<open>None\<close>.
\<close>

record ExpandResponse =
  er_success :: bool
  er_error :: "string option"
  er_mode :: "string option"
  er_chunk_count :: "nat option"
  er_estimated_full_tokens :: "nat option"
  er_previews :: "string option"
  er_hint :: "string option"
  er_estimated_tokens :: "nat option"
  er_content :: "string option"
  er_warning :: "string option"

definition expandBlank :: ExpandResponse where
  "expandBlank =
     \<lparr>er_success = True, er_error = None, er_mode = None, er_chunk_count = None,
      er_estimated_full_tokens = None, er_previews = None, er_hint = None,
      er_estimated_tokens = None, er_content = None, er_warning = None\<rparr>"

definition optTrue :: "bool option \<Rightarrow> bool" where
  "optTrue b = (case b of None \<Rightarrow> False | Some v \<Rightarrow> v)"

definition chunkSeparator :: string where
  "chunkSeparator = nl @ nl @ ''---'' @ nl @ nl"

definition expandTool_execute :: "host \<Rightarrow> store \<Rightarrow> ExpandArgs \<Rightarrow> ExpandResponse" where
  "expandTool_execute h st args =
     (let cs = expand st (arg_chunk_id args) (optTrue (arg_include_children args))
      in if length cs = 0
         then expandBlank\<lparr>er_success := False,
                er_error := Some (''Chunk '' @ arg_chunk_id args @ '' not found'')\<rparr>
         else if optTrue (arg_preview_only args)
         then
           let previews = join chunkSeparator (map (formatChunkPreview h) cs);
               totalEstimatedTokens =
                 foldl (\<lambda>sum chunk. sum + estimateTokens (formatChunkContent h chunk)) 0 cs
           in expandBlank\<lparr>er_success := True, er_mode := Some ''preview'',
                er_chunk_count := Some (length cs),
                er_estimated_full_tokens := Some totalEstimatedTokens,
                er_previews := Some previews,
                er_hint := Some
                  (if totalEstimatedTokens > LARGE_RESPONSE_TOKEN_THRESHOLD
                   then ''Full expansion would be ~'' @ showNat totalEstimatedTokens
                        @ '' tokens. Consider using a subagent for detailed analysis.''
                   else ''Use preview_only=false for full content.'')\<rparr>
         else
           let formatted = join chunkSeparator (map (formatChunkContent h) cs);
               estimatedTokens = estimateTokens formatted;
               response = expandBlank\<lparr>er_success := True,
                 er_chunk_count := Some (length cs),
                 er_estimated_tokens := Some estimatedTokens,
                 er_content := Some formatted\<rparr>
           in if estimatedTokens > LARGE_RESPONSE_TOKEN_THRESHOLD
              then response\<lparr>er_warning := Some
                     (''Large response (~'' @ showNat estimatedTokens
                      @ '' tokens). For future explorations of this size, consider delegating to a subagent to preserve context.'')\<rparr>
              else response)"

section \<open>The streaming aggregator\<close>

text \<open>
  Modelled from the spec: the message tracker of \<open>chunks/index.ts\<close> (source not at
  hand). Per session it maps a message id to a draft \<open>{role, parts}\<close>, the parts being
  a mapping from part id to part. Both mappings keep the order in which keys were first
  seen and replace the value of a key that is set again, which is what
  \<^const>\<open>AList.update\<close> does on an association list.
\<close>

record DraftMessage =
  draft_role :: Role
  draft_parts :: "(string \<times> ChunkMessagePart) list"

type_synonym tracker = "(string \<times> (string \<times> DraftMessage) list) list"

datatype error = UnknownMessage

definition draftsOf :: "tracker \<Rightarrow> string \<Rightarrow> (string \<times> DraftMessage) list" where
  "draftsOf tr sid = (case map_of tr sid of None \<Rightarrow> [] | Some ms \<Rightarrow> ms)"

text \<open>
  Modelled from the spec: \<open>ensureMessage\<close> creates a draft message shell if absent;
  repeated calls are no-ops.
\<close>

definition ensureMessage :: "tracker \<Rightarrow> string \<Rightarrow> string \<Rightarrow> Role \<Rightarrow> tracker" where
  "ensureMessage tr sid mid role =
     (let ms = draftsOf tr sid
      in if map_of ms mid \<noteq> None then tr
         else AList.update sid (ms @ [(mid, \<lparr>draft_role = role, draft_parts = []\<rparr>)]) tr)"

text \<open>
  Modelled from the spec: \<open>addPart\<close> inserts or overwrites the part at \<open>partId\<close> within
  the named draft message; the message must already exist, and the call fails with
  \<open>UnknownMessage\<close> otherwise.
\<close>

definition addPart ::
  "tracker \<Rightarrow> string \<Rightarrow> string \<Rightarrow> string \<Rightarrow> ChunkMessagePart \<Rightarrow> error + tracker" where
  "addPart tr sid mid pid part =
     (case map_of (draftsOf tr sid) mid of
        None \<Rightarrow> Inl UnknownMessage
      | Some d \<Rightarrow>
          Inr (AList.update sid
                 (AList.update mid
                    (d\<lparr>draft_parts := AList.update pid part (draft_parts d)\<rparr>)
                    (draftsOf tr sid))
                 tr))"

text \<open>
  Modelled from the spec: \<open>hasMessages\<close> tells whether the session has draft messages.
\<close>

definition hasMessages :: "tracker \<Rightarrow> string \<Rightarrow> bool" where
  "hasMessages tr sid = (draftsOf tr sid \<noteq> [])"

text \<open>
  Modelled from the spec: a draft becomes a message whose parts are the values of the part
  mapping in part-arrival order. The spec does not say where a message's timestamp comes
  from; the model stamps it when the drafts are read.
\<close>

definition toChunkMessage :: "int \<Rightarrow> string \<times> DraftMessage \<Rightarrow> ChunkMessage" where
  "toChunkMessage now md =
     \<lparr>msg_id = fst md, msg_role = draft_role (snd md),
      msg_parts = map snd (draft_parts (snd md)), msg_timestamp = now\<rparr>"

text \<open>
  Modelled from the spec: \<open>getMessages\<close> reads the draft messages of a session, in the
  order in which the messages arrived.
\<close>

definition getMessages :: "tracker \<Rightarrow> string \<Rightarrow> int \<Rightarrow> ChunkMessage list" where
  "getMessages tr sid now = map (toChunkMessage now) (draftsOf tr sid)"

text \<open>Modelled from the spec: \<open>clearSession\<close> discards all drafts of a session.\<close>

definition clearSession :: "tracker \<Rightarrow> string \<Rightarrow> tracker" where
  "clearSession tr sid = AList.delete sid tr"

section \<open>Finalize and compaction\<close>

text \<open>\<open>Set.prototype.add\<close> on a set that iterates in insertion order.\<close>

definition setAdd :: "string list \<Rightarrow> string \<Rightarrow> string list" where
  "setAdd s x = (if x \<in> set s then s else s @ [x])"

record state =
  tracker :: tracker
  store :: store
  injectedSessions :: "string set"

definition initialState :: state where
  "initialState = \<lparr>tracker = [], store = emptyStore, injectedSessions = {}\<rparr>"

definition toolParts :: "ChunkMessage list \<Rightarrow> ChunkMessagePart list" where
  "toolParts msgs = filter (\<lambda>p. part_type p = ToolPart) (concat (map msg_parts msgs))"

text \<open>
  Modelled from the spec: the metadata of a finalized chunk is derived by scanning the tool
  parts: their tool names, and the paths in their inputs. Which fields of an input bear a
  path is not fixed by the spec and is the parameter \<open>pathsOf\<close>.
\<close>

definition deriveMetadata :: "(json \<Rightarrow> string list) \<Rightarrow> ChunkMessage list \<Rightarrow> ChunkMetadata" where
  "deriveMetadata pathsOf msgs =
     \<lparr>tools_used =
        Some (foldl setAdd [] (List.map_filter part_tool (toolParts msgs))),
      files_modified =
        Some (foldl setAdd []
                (concat (map pathsOf (List.map_filter part_input (toolParts msgs))))),
      outcome = None\<rparr>"

text \<open>
  Modelled from the spec: \<open>finalize(sessionId)\<close> is a no-op if no draft messages exist
  for the session. Otherwise it snapshots the draft messages into a content record,
  derives the metadata, creates a chunk and clears the session's drafts.
\<close>

definition finalize ::
  "(json \<Rightarrow> string list) \<Rightarrow> state \<Rightarrow> string \<Rightarrow> int \<Rightarrow> state \<times> Chunk option" where
  "finalize pathsOf s sid now =
     (if \<not> hasMessages (tracker s) sid then (s, None)
      else
        let msgs = getMessages (tracker s) sid now;
            cont = \<lparr>messages = msgs, metadata = deriveMetadata pathsOf msgs\<rparr>;
            (st', c) = create (store s) sid cont now
        in (s\<lparr>store := st', tracker := clearSession (tracker s) sid\<rparr>, Some c))"

subsection \<open>\<open>generateCompactionSummary\<close> (\<open>hooks/events.ts\<close>)\<close>

record SummaryAcc =
  allTools :: "string list"
  allFiles :: "string list"
  totalMessages :: nat

text \<open>One iteration of the loop over the chunks.\<close>

definition summaryStep :: "SummaryAcc \<Rightarrow> Chunk \<Rightarrow> SummaryAcc" where
  "summaryStep acc chunk =
     \<lparr>allTools =
        (case tools_used (metadata (content chunk)) of
           None \<Rightarrow> allTools acc
         | Some ts \<Rightarrow> foldl setAdd (allTools acc) ts),
      allFiles =
        (case files_modified (metadata (content chunk)) of
           None \<Rightarrow> allFiles acc
         | Some fs \<Rightarrow> foldl setAdd (allFiles acc) fs),
      totalMessages = totalMessages acc + length (messages (content chunk))\<rparr>"

definition generateCompactionSummary :: "Chunk list \<Rightarrow> string" where
  "generateCompactionSummary cs =
     (let acc = foldl summaryStep \<lparr>allTools = [], allFiles = [], totalMessages = 0\<rparr> cs;
          parts0 = [showNat (totalMessages acc) @ '' messages across ''
                    @ showNat (length cs) @ '' chunks''];
          parts1 =
            (if length (allTools acc) > 0
             then parts0 @ [''tools: '' @ join '', '' (allTools acc)] else parts0);
          parts2 =
            (if length (allFiles acc) > 0
             then
               let fileList =
                     (if length (allFiles acc) \<le> 3 then join '', '' (allFiles acc)
                      else join '', '' (take 3 (allFiles acc)) @ '' +''
                           @ showNat (length (allFiles acc) - 3) @ '' more'')
               in parts1 @ [''files: '' @ fileList]
             else parts1)
      in join ''; '' parts2)"

subsection \<open>\<open>compact\<close>\<close>

record CompactResult =
  summaryChunk :: Chunk
  compactedChunks :: "Chunk list"

text \<open>
  Modelled from the spec: steps 2 to 7 of the compaction protocol. With at most one active
  chunk nothing happens. Otherwise the summary is the caller's, or the generated one; a
  new chunk is created with \<open>depth = 1 + max(depth of activeChunks)\<close>, \<open>childRefs\<close> the ids
  of the active chunks in order, \<open>status = active\<close>, a fresh id and an empty content; then
  every chunk in \<open>activeChunks\<close> is flipped to \<open>compacted\<close>.
\<close>

definition compact_session ::
  "store \<Rightarrow> string \<Rightarrow> string option \<Rightarrow> int \<Rightarrow> store \<times> CompactResult option" where
  "compact_session st sid summ now =
     (let activeChunks = getActiveChunks st sid
      in if length activeChunks \<le> 1 then (st, None)
         else
           let chosen = (case summ of Some t \<Rightarrow> t
                         | None \<Rightarrow> generateCompactionSummary activeChunks);
               new = \<lparr>chunk_id = idOf (nextId st), sessionId = sid,
                       content = \<lparr>messages = [], metadata = emptyMetadata\<rparr>,
                       summary = Some chosen, status = Active,
                       depth = 1 + Max (set (map depth activeChunks)),
                       childRefs = map chunk_id activeChunks, createdAt = now\<rparr>;
               flip = (\<lambda>c. if chunk_id c \<in> set (map chunk_id activeChunks)
                            then c\<lparr>status := Compacted\<rparr> else c)
           in (st\<lparr>chunks := map flip (chunks st @ [new]), nextId := Suc (nextId st)\<rparr>,
               Some \<lparr>summaryChunk = new,
                     compactedChunks = map (\<lambda>c. c\<lparr>status := Compacted\<rparr>) activeChunks\<rparr>))"

section \<open>The event hook (\<open>hooks/events.ts\<close>)\<close>

subsection \<open>The OpenCode client\<close>

record OpenCodeMessagePart =
  ocp_type :: string
  ocp_text :: "string option"

record OpenCodeMessage =
  oc_id :: string
  oc_role :: string
  oc_parts :: "OpenCodeMessagePart list option"

text \<open>
  What \<open>client.session.messages\<close> does: it throws, it answers without a \<open>data\<close> array, or
  it answers with the messages of the session.
\<close>

datatype ClientResult = Throws | NoData | Data "OpenCodeMessage list"

type_synonym client = "string \<Rightarrow> ClientResult"

text \<open>
  What the handlers read from their surroundings: the module-level \<open>openCodeClient\<close>
  (\<open>null\<close> until \<open>setOpenCodeClient\<close> is called at plugin initialisation), and the
  parameter of \<^const>\<open>deriveMetadata\<close>.
\<close>

record eventEnv =
  openCodeClient :: "client option"
  pathsOfInput :: "json \<Rightarrow> string list"

text \<open>\<open>String.prototype.includes\<close> is \<^const>\<open>sublist\<close>, \<open>startsWith\<close> is \<^const>\<open>prefix\<close>.\<close>

definition looksLikeSummary :: "string \<Rightarrow> bool" where
  "looksLikeSummary t \<longleftrightarrow>
     sublist ''Session Continuation Prompt'' t
     \<or> sublist ''Complete Summary of All Work'' t
     \<or> (sublist ''What We Did'' t \<and> sublist ''ch_'' t)"

fun findInParts :: "OpenCodeMessagePart list \<Rightarrow> string option" where
  "findInParts [] = None"
| "findInParts (p # ps) =
     (if ocp_type p = ''text'' \<and> truthy (ocp_text p)
         \<and> looksLikeSummary (orEmpty (ocp_text p))
         \<and> \<not> prefix ''## Project Memory (Memoir)'' (orEmpty (ocp_text p))
      then Some (orEmpty (ocp_text p))
      else findInParts ps)"

text \<open>The outer loop, over the messages from the newest to the oldest.\<close>

fun findInMessages :: "OpenCodeMessage list \<Rightarrow> string option" where
  "findInMessages [] = None"
| "findInMessages (m # ms) =
     (case oc_parts m of
        None \<Rightarrow> findInMessages ms
      | Some ps \<Rightarrow>
          (case findInParts ps of
             Some t \<Rightarrow> Some t
           | None \<Rightarrow> findInMessages ms))"

definition fetchCompactionSummary :: "client option \<Rightarrow> string \<Rightarrow> string option" where
  "fetchCompactionSummary cl sessionID =
     (case cl of
        None \<Rightarrow> None
      | Some c \<Rightarrow>
          (case c sessionID of
             Throws \<Rightarrow> None
           | NoData \<Rightarrow> None
           | Data msgs \<Rightarrow> findInMessages (rev msgs)))"

subsection \<open>Events\<close>

datatype ToolStatus = Pending | Running | Completed | Error

record ToolState =
  ts_status :: ToolStatus
  ts_input :: "json option"
  ts_output :: "string option"
  ts_error :: "string option"
  ts_title :: "string option"

record EventMessagePart =
  ep_id :: string
  ep_sessionID :: string
  ep_messageID :: string
  ep_type :: string
  ep_text :: "string option"
  ep_tool :: "string option"
  ep_callID :: "string option"
  ep_state :: "ToolState option"

text \<open>The fields of \<open>Message\<close> that the handler reads.\<close>

record Message =
  m_id :: string
  m_sessionID :: string
  m_role :: string

datatype Event =
    SessionIdle string
  | SessionCompacted string
  | SessionDeleted string
  | MessageUpdated Message
  | MessagePartUpdated EventMessagePart
  | OtherEvent string

subsection \<open>Handlers\<close>

definition handleSessionIdle :: "eventEnv \<Rightarrow> state \<Rightarrow> string \<Rightarrow> int \<Rightarrow> state" where
  "handleSessionIdle env s sessionID now = fst (finalize (pathsOfInput env) s sessionID now)"

text \<open>\<open>a || b\<close> on an optional string and a string.\<close>

definition orElse :: "string option \<Rightarrow> string \<Rightarrow> string" where
  "orElse a b = (if truthy a then orEmpty a else b)"

definition handleSessionCompacted :: "eventEnv \<Rightarrow> state \<Rightarrow> string \<Rightarrow> int \<Rightarrow> state" where
  "handleSessionCompacted env s sessionID now =
     (let s1 = fst (finalize (pathsOfInput env) s sessionID now);
          activeChunks = getActiveChunks (store s1) sessionID
      in if length activeChunks > 1
         then
           let openCodeSummary = fetchCompactionSummary (openCodeClient env) sessionID;
               compactionSummary =
                 orElse openCodeSummary (generateCompactionSummary activeChunks)
           in s1\<lparr>store := fst (compact_session (store s1) sessionID (Some compactionSummary) now)\<rparr>
         else s1)"

text \<open>\<open>clearInjectedSession\<close> of \<open>hooks/chat-message.ts\<close> deletes from the set.\<close>

definition clearInjectedSession :: "string set \<Rightarrow> string \<Rightarrow> string set" where
  "clearInjectedSession injected sessionID = injected - {sessionID}"

definition handleSessionDeleted :: "state \<Rightarrow> string \<Rightarrow> state" where
  "handleSessionDeleted s sessionID =
     s\<lparr>store := deleteSession (store s) sessionID,
       tracker := clearSession (tracker s) sessionID,
       injectedSessions := clearInjectedSession (injectedSessions s) sessionID\<rparr>"

definition roleOf :: "string \<Rightarrow> Role" where
  "roleOf r = (if r = ''user'' then User else Assistant)"

definition handleMessageUpdated :: "state \<Rightarrow> Message \<Rightarrow> state" where
  "handleMessageUpdated s message =
     (if m_role message \<noteq> ''user'' \<and> m_role message \<noteq> ''assistant'' then s
      else s\<lparr>tracker :=
             ensureMessage (tracker s) (m_sessionID message) (m_id message)
               (roleOf (m_role message))\<rparr>)"

text \<open>
  \<open>String.prototype.trim\<close> removes white space and line terminators from both ends. Of the
  code units that a \<^typ>\<open>char\<close> can hold these are TAB, LF, VT, FF, CR, SP and NBSP.
\<close>

definition isWhiteSpace :: "char \<Rightarrow> bool" where
  "isWhiteSpace c \<longleftrightarrow> of_char c \<in> {9, 10, 11, 12, 13, 32, 160 :: nat}"

definition trim :: "string \<Rightarrow> string" where
  "trim t = rev (dropWhile isWhiteSpace (rev (dropWhile isWhiteSpace t)))"

text \<open>\<open>part.state?.status\<close>.\<close>

definition stateStatus :: "EventMessagePart \<Rightarrow> ToolStatus option" where
  "stateStatus part = map_option ts_status (ep_state part)"

definition handleMessagePartUpdated :: "state \<Rightarrow> EventMessagePart \<Rightarrow> error + state" where
  "handleMessagePartUpdated s part =
     (if ep_type part \<noteq> ''text'' \<and> ep_type part \<noteq> ''tool'' then Inr s
      else if ep_type part = ''text''
              \<and> (\<not> truthy (ep_text part) \<or> trim (orEmpty (ep_text part)) = [])
      then Inr s
      else if ep_type part = ''tool'' \<and> stateStatus part \<noteq> Some Completed then Inr s
      else
        let chunkPart =
              (if ep_type part = ''text''
               then Some \<lparr>part_type = TextPart, part_text = ep_text part, part_tool = None,
                          part_input = None, part_output = None\<rparr>
               else if ep_type part = ''tool''
               then Some \<lparr>part_type = ToolPart, part_text = None, part_tool = ep_tool part,
                          part_input = Option.bind (ep_state part) ts_input,
                          part_output = Option.bind (ep_state part) ts_output\<rparr>
               else None)
        in case chunkPart of
             None \<Rightarrow> Inr s
           | Some cp \<Rightarrow>
               (case addPart (tracker s) (ep_sessionID part) (ep_messageID part)
                       (ep_id part) cp of
                  Inl e \<Rightarrow> Inl e
                | Inr tr \<Rightarrow> Inr (s\<lparr>tracker := tr\<rparr>)))"

definition HANDLED_EVENTS :: "string list" where
  "HANDLED_EVENTS =
     [''session.idle'', ''session.compacted'', ''session.deleted'', ''message.updated'',
      ''message.part.updated'']"

definition eventType :: "Event \<Rightarrow> string" where
  "eventType ev =
     (case ev of
        SessionIdle _ \<Rightarrow> ''session.idle''
      | SessionCompacted _ \<Rightarrow> ''session.compacted''
      | SessionDeleted _ \<Rightarrow> ''session.deleted''
      | MessageUpdated _ \<Rightarrow> ''message.updated''
      | MessagePartUpdated _ \<Rightarrow> ''message.part.updated''
      | OtherEvent t \<Rightarrow> t)"

definition handleEvent :: "eventEnv \<Rightarrow> state \<Rightarrow> Event \<Rightarrow> int \<Rightarrow> error + state" where
  "handleEvent env s ev now =
     (if eventType ev \<notin> set HANDLED_EVENTS then Inr s
      else
        case ev of
          SessionIdle sid \<Rightarrow> Inr (handleSessionIdle env s sid now)
        | SessionCompacted sid \<Rightarrow> Inr (handleSessionCompacted env s sid now)
        | SessionDeleted sid \<Rightarrow> Inr (handleSessionDeleted s sid)
        | MessageUpdated m \<Rightarrow> Inr (handleMessageUpdated s m)
        | MessagePartUpdated p \<Rightarrow> handleMessagePartUpdated s p
        | OtherEvent _ \<Rightarrow> Inr s)"

text \<open>
  A run of the event feed, each event with the time at which it arrives. An event whose
  handler fails leaves the state as it was.
\<close>

fun runEvents :: "eventEnv \<Rightarrow> state \<Rightarrow> (Event \<times> int) list \<Rightarrow> state" where
  "runEvents env s [] = s"
| "runEvents env s ((ev, now) # evs) =
     (case handleEvent env s ev now of
        Inl _ \<Rightarrow> runEvents env s evs
      | Inr s' \<Rightarrow> runEvents env s' evs)"

section \<open>The history tool (\<open>tools/history.ts\<close>)\<close>

definition LARGE_RESULT_TOKEN_THRESHOLD :: nat where
  "LARGE_RESULT_TOKEN_THRESHOLD = 2000"

record HistoryArgs =
  arg_query :: "string option"
  arg_all_sessions :: "bool option"
  arg_session_ids :: "string list option"
  arg_depth :: "int option"
  arg_limit :: "int option"

record ToolContext =
  ctx_sessionID :: string

text \<open>The option objects that \<open>execute\<close> passes to the chunk service, and its results.\<close>

record SearchOptions =
  so_sessionId :: "string option"
  so_depth :: "int option"
  so_limit :: int

record RecentOptions =
  ro_sessionId :: "string option"
  ro_limit :: int

record SearchResult =
  sr_chunk :: Chunk
  sr_rank :: real

text \<open>
  The two queries of the chunk service that the tool calls. Their source is not at hand and
  the tool does not depend on how they rank or filter, so they are parameters.
\<close>

record chunkService =
  search :: "string \<Rightarrow> SearchOptions \<Rightarrow> SearchResult list"
  getRecentChunks :: "RecentOptions \<Rightarrow> Chunk list"

record FormattedChunk =
  fc_id :: string
  fc_sessionId :: string
  fc_depth :: nat
  fc_status :: ChunkStatus
  fc_summary :: string
  fc_created :: "string option"
  fc_messages :: nat
  fc_files_modified :: nat
  fc_rank :: "real option"

record HistoryResponse =
  hr_success :: bool
  hr_count :: nat
  hr_scope :: string
  hr_mode :: string
  hr_query :: "string option"
  hr_message :: "string option"
  hr_hint :: "string option"
  hr_estimated_tokens :: "nat option"
  hr_estimated_expanded_tokens :: "nat option"
  hr_chunks :: "FormattedChunk list option"
  hr_warning :: "string option"

text \<open>The first statement of \<open>execute\<close>: which session is searched, and the scope reported.\<close>

definition searchTarget :: "HistoryArgs \<Rightarrow> ToolContext \<Rightarrow> string option \<times> string" where
  "searchTarget args ctx =
     (case arg_session_ids args of
        Some (i # is) \<Rightarrow> (Some i, ''sessions: '' @ join '', '' (i # is))
      | _ \<Rightarrow>
          (if optTrue (arg_all_sessions args) then (None, ''all sessions'')
           else (Some (ctx_sessionID ctx), ''current session'')))"

text \<open>\<open>c.summary || `${c.content.messages.length} messages`\<close>.\<close>

definition summaryOrCount :: "Chunk \<Rightarrow> string" where
  "summaryOrCount c =
     orElse (summary c) (showNat (length (messages (content c))) @ '' messages'')"

definition formatRecent :: "host \<Rightarrow> Chunk \<Rightarrow> FormattedChunk" where
  "formatRecent h c =
     \<lparr>fc_id = chunk_id c, fc_sessionId = sessionId c, fc_depth = depth c,
      fc_status = status c, fc_summary = summaryOrCount c,
      fc_created = Some (toISOString h (createdAt c * 1000)),
      fc_messages = length (messages (content c)),
      fc_files_modified = length (orNil (files_modified (metadata (content c)))),
      fc_rank = None\<rparr>"

definition formatResult :: "SearchResult \<Rightarrow> FormattedChunk" where
  "formatResult r =
     (let c = sr_chunk r
      in \<lparr>fc_id = chunk_id c, fc_sessionId = sessionId c, fc_depth = depth c,
           fc_status = status c, fc_summary = summaryOrCount c,
           fc_created = None,
           fc_messages = length (messages (content c)),
           fc_files_modified = length (orNil (files_modified (metadata (content c)))),
           fc_rank = Some (sr_rank r)\<rparr>)"

text \<open>The body of the \<open>reduce\<close> that estimates the cost of expanding every result.\<close>

definition expandedStep :: "nat \<Rightarrow> SearchResult \<Rightarrow> nat" where
  "expandedStep acc r =
     (let summaryLength = length (orEmpty (summary (sr_chunk r)));
          estimatedFullLength = max (summaryLength * 20) 2000
      in acc + nat \<lceil>real estimatedFullLength / real CHARS_PER_TOKEN\<rceil>)"

definition estimatedExpandedTokens :: "SearchResult list \<Rightarrow> nat" where
  "estimatedExpandedTokens results = foldl expandedStep 0 results"

definition expandHint :: string where
  "expandHint = ''Use memoir_expand({ chunk_id: \"ch_xxx\" }) to see full content.''"

definition historyTool_execute ::
  "host \<Rightarrow> (FormattedChunk list \<Rightarrow> string) \<Rightarrow> chunkService \<Rightarrow> HistoryArgs \<Rightarrow> ToolContext
     \<Rightarrow> HistoryResponse" where
  "historyTool_execute h stringify svc args ctx =
     (let (sid, searchScope) = searchTarget args ctx;
          limit = (case arg_limit args of None \<Rightarrow> 10 | Some l \<Rightarrow> l);
          query = map_option trim (arg_query args)
      in if \<not> truthy query
         then
           let recentChunks = getRecentChunks svc \<lparr>ro_sessionId = sid, ro_limit = limit\<rparr>
           in if length recentChunks = 0
              then \<lparr>hr_success = True, hr_count = 0, hr_scope = searchScope,
                    hr_mode = ''recent'', hr_query = None,
                    hr_message = Some (''No chunks found in '' @ searchScope),
                    hr_hint =
                      (if optTrue (arg_all_sessions args) then None
                       else Some ''Try with all_sessions: true to see past sessions''),
                    hr_estimated_tokens = None, hr_estimated_expanded_tokens = None,
                    hr_chunks = None, hr_warning = None\<rparr>
              else
                let formatted = map (formatRecent h) recentChunks
                in \<lparr>hr_success = True, hr_count = length formatted, hr_scope = searchScope,
                     hr_mode = ''recent'', hr_query = None, hr_message = None,
                     hr_hint = Some expandHint,
                     hr_estimated_tokens = None, hr_estimated_expanded_tokens = None,
                     hr_chunks = Some formatted, hr_warning = None\<rparr>
         else
           let q = orEmpty query;
               results = search svc q
                 \<lparr>so_sessionId = sid, so_depth = arg_depth args, so_limit = limit\<rparr>
           in if length results = 0
              then \<lparr>hr_success = True, hr_count = 0, hr_scope = searchScope,
                    hr_mode = ''search'', hr_query = Some q,
                    hr_message =
                      Some (''No matches for \"'' @ q @ ''\" in '' @ searchScope),
                    hr_hint =
                      (if optTrue (arg_all_sessions args) then None
                       else Some ''Try with all_sessions: true to search past sessions''),
                    hr_estimated_tokens = None, hr_estimated_expanded_tokens = None,
                    hr_chunks = None, hr_warning = None\<rparr>
              else
                let formatted = map formatResult results;
                    responseText = stringify formatted;
                    estimatedTokens = estimateTokens responseText;
                    expanded = estimatedExpandedTokens results;
                    response =
                      \<lparr>hr_success = True, hr_count = length results,
                       hr_scope = searchScope, hr_mode = ''search'', hr_query = Some q,
                       hr_message = None, hr_hint = Some expandHint,
                       hr_estimated_tokens = Some estimatedTokens,
                       hr_estimated_expanded_tokens = Some expanded,
                       hr_chunks = Some formatted, hr_warning = None\<rparr>
                in if expanded > LARGE_RESULT_TOKEN_THRESHOLD \<and> length results > 3
                   then response\<lparr>hr_warning := Some
                          (''Expanding all '' @ showNat (length results)
                           @ '' results would use ~'' @ showNat expanded
                           @ '' tokens. Consider using memoir_expand with preview_only=true first, or delegate detailed analysis to a subagent.'')\<rparr>
                   else response)"

section \<open>Notions used to state the properties\<close>

text \<open>Reading a decimal numeral back; the inverse of \<^const>\<open>showNat\<close>.\<close>

definition readNat :: "string \<Rightarrow> nat" where
  "readNat t = foldl (\<lambda>a c. 10 * a + (of_char c - 48)) 0 t"

text \<open>
  The invariant of the store: ids are distinct and were drawn from the counter, and every
  child reference resolves to a chunk of the same session.
\<close>

definition store_ok :: "store \<Rightarrow> bool" where
  "store_ok st \<longleftrightarrow>
     distinct (map chunk_id (chunks st))
     \<and> (\<forall>c\<in>set (chunks st). \<exists>k<nextId st. chunk_id c = idOf k)
     \<and> (\<forall>c\<in>set (chunks st). \<forall>r\<in>set (childRefs c).
           \<exists>d\<in>set (chunks st). chunk_id d = r \<and> sessionId d = sessionId c)"

text \<open>A text is blank if it consists of white space only (the empty text included).\<close>

definition blank :: "string \<Rightarrow> bool" where
  "blank t = list_all isWhiteSpace t"

text \<open>
  The streamed parts that the filtering policy lets through: a text part with non-blank
  text, or a tool part whose execution state is \<open>completed\<close>.
\<close>

definition acceptedPart :: "EventMessagePart \<Rightarrow> bool" where
  "acceptedPart part \<longleftrightarrow>
     (ep_type part = ''text''
        \<and> (case ep_text part of None \<Rightarrow> False | Some t \<Rightarrow> \<not> blank t))
     \<or> (ep_type part = ''tool''
        \<and> (case ep_state part of None \<Rightarrow> False | Some ts \<Rightarrow> ts_status ts = Completed))"

text \<open>The chunk part that the handler builds from an accepted streamed part.\<close>

definition chunkPartOf :: "EventMessagePart \<Rightarrow> ChunkMessagePart" where
  "chunkPartOf part =
     (if ep_type part = ''text''
      then \<lparr>part_type = TextPart, part_text = ep_text part, part_tool = None,
            part_input = None, part_output = None\<rparr>
      else \<lparr>part_type = ToolPart, part_text = None, part_tool = ep_tool part,
            part_input = Option.bind (ep_state part) ts_input,
            part_output = Option.bind (ep_state part) ts_output\<rparr>)"

definition textOrTool :: "ChunkMessagePart \<Rightarrow> bool" where
  "textOrTool p \<longleftrightarrow> part_type p = TextPart \<or> part_type p = ToolPart"

definition draftsTextOrTool :: "tracker \<Rightarrow> bool" where
  "draftsTextOrTool tr =
     list_all (\<lambda>sm. list_all (\<lambda>md. list_all (\<lambda>pp. textOrTool (snd pp))
                                   (draft_parts (snd md))) (snd sm)) tr"

definition chunksTextOrTool :: "store \<Rightarrow> bool" where
  "chunksTextOrTool st =
     list_all (\<lambda>c. list_all (\<lambda>m. list_all textOrTool (msg_parts m))
                      (messages (content c))) (chunks st)"

definition onlyTextOrTool :: "state \<Rightarrow> bool" where
  "onlyTextOrTool s \<longleftrightarrow> draftsTextOrTool (tracker s) \<and> chunksTextOrTool (store s)"

text \<open>
  The generated summary as the spec words it:
  \<open>"<total messages> messages across <n> chunks; tools: ...; files: ..."\<close>, the tools and
  files being the distinct names in order of first occurrence, at most 3 files
  enumerated, with a \<open>+K more\<close> suffix beyond that.
\<close>

definition firstOccurrences :: "string list \<Rightarrow> string list" where
  "firstOccurrences xs = rev (remdups (rev xs))"

definition metadataSummary :: "Chunk list \<Rightarrow> string" where
  "metadataSummary cs =
     (let total = sum_list (map (\<lambda>c. length (messages (content c))) cs);
          tools = firstOccurrences
                    (concat (map (\<lambda>c. orNil (tools_used (metadata (content c)))) cs));
          files = firstOccurrences
                    (concat (map (\<lambda>c. orNil (files_modified (metadata (content c)))) cs))
      in join ''; ''
           ([showNat total @ '' messages across '' @ showNat (length cs) @ '' chunks'']
            @ (if tools = [] then [] else [''tools: '' @ join '', '' tools])
            @ (if files = [] then []
               else [''files: '' @ join '', '' (take 3 files)
                     @ (if length files > 3
                        then '' +'' @ showNat (length files - 3) @ '' more'' else [])])))"

text \<open>The drafts of one session hold text and tool parts only.\<close>

definition draftsOK :: "(string \<times> DraftMessage) list \<Rightarrow> bool" where
  "draftsOK ms \<longleftrightarrow> (\<forall>md\<in>set ms. \<forall>pp\<in>set (draft_parts (snd md)). textOrTool (snd pp))"

section \<open>Concrete inputs\<close>

text \<open>Inputs at which the properties below are instantiated.\<close>

definition host0 :: host where
  "host0 = \<lparr>toISOString = (\<lambda>_. ''1970-01-01T00:00:00.000Z''), stringifyPretty = (\<lambda>_. ''{}'')\<rparr>"

definition leafContent :: ChunkContent where
  "leafContent =
     \<lparr>messages = [\<lparr>msg_id = ''msg-1'', msg_role = User,
                    msg_parts = [\<lparr>part_type = TextPart, part_text = Some ''Task 1'',
                                  part_tool = None, part_input = None, part_output = None\<rparr>],
                    msg_timestamp = 0\<rparr>],
      metadata = emptyMetadata\<rparr>"

definition longSummaryChunk :: Chunk where
  "longSummaryChunk =
     \<lparr>chunk_id = ''ch_0'', sessionId = ''s1'', content = leafContent,
      summary = Some (replicate 401 CHR ''x''), status = Active, depth = 0, childRefs = [],
      createdAt = 0\<rparr>"

definition longResult :: SearchResult where
  "longResult = \<lparr>sr_chunk = longSummaryChunk, sr_rank = - 1\<rparr>"

definition oneResultService :: chunkService where
  "oneResultService =
     \<lparr>search = (\<lambda>q opts. [longResult]), getRecentChunks = (\<lambda>opts. [])\<rparr>"

definition fourResultService :: chunkService where
  "fourResultService =
     \<lparr>search = (\<lambda>q opts. [longResult, longResult, longResult, longResult]),
      getRecentChunks = (\<lambda>opts. [])\<rparr>"

definition queryArgs :: HistoryArgs where
  "queryArgs = \<lparr>arg_query = Some ''x'', arg_all_sessions = None, arg_session_ids = None,
                 arg_depth = None, arg_limit = None\<rparr>"

definition ctx0 :: ToolContext where
  "ctx0 = \<lparr>ctx_sessionID = ''s1''\<rparr>"

definition stringify0 :: "FormattedChunk list \<Rightarrow> string" where
  "stringify0 fs = ''[]''"

definition oneChunkStore :: store where
  "oneChunkStore = fst (create emptyStore ''s1'' leafContent 0)"

definition expandArgs0 :: ExpandArgs where
  "expandArgs0 = \<lparr>arg_chunk_id = ''ch_0'', arg_include_children = None, arg_preview_only = None\<rparr>"

definition firstOnlyService :: chunkService where
  "firstOnlyService =
     \<lparr>search = (\<lambda>q opts. if so_sessionId opts = Some ''s1'' then [longResult] else []),
      getRecentChunks = (\<lambda>opts. [])\<rparr>"

definition twoSessionArgs :: HistoryArgs where
  "twoSessionArgs = \<lparr>arg_query = Some ''x'', arg_all_sessions = None,
                      arg_session_ids = Some [''s1'', ''s2''],
                      arg_depth = None, arg_limit = None\<rparr>"

definition draftState :: state where
  "draftState =
     handleMessageUpdated initialState
       \<lparr>m_id = ''msg-1'', m_sessionID = ''s1'', m_role = ''assistant''\<rparr>"

definition textEvent :: EventMessagePart where
  "textEvent =
     \<lparr>ep_id = ''prt-1'', ep_sessionID = ''s1'', ep_messageID = ''msg-1'', ep_type = ''text'',
      ep_text = Some ''Hello'', ep_tool = None, ep_callID = None, ep_state = None\<rparr>"

definition runningToolEvent :: EventMessagePart where
  "runningToolEvent =
     \<lparr>ep_id = ''prt-2'', ep_sessionID = ''s1'', ep_messageID = ''msg-1'', ep_type = ''tool'',
      ep_text = None, ep_tool = Some ''read'', ep_callID = Some ''call-1'',
      ep_state = Some \<lparr>ts_status = Running, ts_input = None, ts_output = None,
                        ts_error = None, ts_title = None\<rparr>\<rparr>"

definition reasoningEvent :: EventMessagePart where
  "reasoningEvent =
     \<lparr>ep_id = ''prt-3'', ep_sessionID = ''s1'', ep_messageID = ''msg-1'',
      ep_type = ''reasoning'', ep_text = Some ''thinking'', ep_tool = None, ep_callID = None,
      ep_state = None\<rparr>"

definition noPaths :: "json \<Rightarrow> string list" where
  "noPaths j = []"

definition env0 :: eventEnv where
  "env0 = \<lparr>openCodeClient = None, pathsOfInput = noPaths\<rparr>"

definition twoChunkStore :: store where
  "twoChunkStore =
     fst (create (fst (create emptyStore ''s1'' leafContent 0)) ''s1'' leafContent 1)"

definition compactedStore :: store where
  "compactedStore = fst (compact_session twoChunkStore ''s1'' (Some ''Summary X'') 2)"

definition metaContent :: ChunkContent where
  "metaContent =
     \<lparr>messages = [\<lparr>msg_id = ''msg-2'', msg_role = Assistant,
                    msg_parts = [\<lparr>part_type = TextPart, part_text = Some ''Task 2'',
                                  part_tool = None, part_input = None, part_output = None\<rparr>],
                    msg_timestamp = 0\<rparr>],
      metadata = \<lparr>tools_used = Some [''read'', ''write'', ''read''],
                  files_modified = Some [''a.ts'', ''b.ts'', ''c.ts'', ''a.ts'', ''d.ts''],
                  outcome = Some ''success''\<rparr>\<rparr>"

definition metaState :: state where
  "metaState =
     \<lparr>tracker = [],
      store = fst (create (fst (create emptyStore ''s1'' leafContent 0)) ''s1'' metaContent 1),
      injectedSessions = {}\<rparr>"

definition feed :: "(Event \<times> int) list" where
  "feed =
     [(MessageUpdated \<lparr>m_id = ''msg-1'', m_sessionID = ''s1'', m_role = ''assistant''\<rparr>, 0),
      (MessagePartUpdated reasoningEvent, 1),
      (MessagePartUpdated textEvent, 2),
      (MessagePartUpdated runningToolEvent, 3),
      (SessionIdle ''s1'', 4)]"

definition recentTwoSessionArgs :: HistoryArgs where
  "recentTwoSessionArgs = \<lparr>arg_query = None, arg_all_sessions = None,
                            arg_session_ids = Some [''s1'', ''s2''],
                            arg_depth = None, arg_limit = None\<rparr>"

definition recentService :: chunkService where
  "recentService =
     \<lparr>search = (\<lambda>q opts. []),
      getRecentChunks =
        (\<lambda>opts. if ro_sessionId opts = Some ''s1'' then [longSummaryChunk] else [])\<rparr>"

section \<open>Basic facts\<close>

lemma ceiling_quarter: "nat \<lceil>real n / real 4\<rceil> = (n + 3) div 4"
proof -
  have "\<lceil>real n / real 4\<rceil> = - (- int n div 4)"
    using ceiling_divide_eq_div [of "int n" 4] by simp
  then show ?thesis
    by (simp add: nat_eq_iff zdiv_int) linarith
qed

lemma estimateTokens_nat: "estimateTokens t = (length t + 3) div 4"
  using ceiling_quarter [of "length t"]
  by (simp add: estimateTokens_def CHARS_PER_TOKEN_def)

lemma expandedStep_nat:
  "expandedStep acc r
     = acc + (max (length (orEmpty (summary (sr_chunk r))) * 20) 2000 + 3) div 4"
  using ceiling_quarter [of "max (length (orEmpty (summary (sr_chunk r))) * 20) 2000"]
  by (simp add: expandedStep_def CHARS_PER_TOKEN_def Let_def)

lemma trim_x: "trim ''x'' = ''x''"
  by (simp add: trim_def isWhiteSpace_def)

lemma idOf_0: "idOf 0 = ''ch_0''"
  by code_simp

lemma getChunk_None_iff: "getChunk st cid = None \<longleftrightarrow> cid \<notin> chunk_id ` set (chunks st)"
  by (auto simp: getChunk_def find_None_iff)

lemma oneChunkStore_chunks:
  "chunks oneChunkStore =
     [\<lparr>chunk_id = ''ch_0'', sessionId = ''s1'', content = leafContent,
       summary = None, status = Active, depth = 0, childRefs = [], createdAt = 0\<rparr>]"
  by (simp add: oneChunkStore_def create_def emptyStore_def idOf_0 Let_def)

section \<open>Expansion of an unknown chunk\<close>

text \<open>
  Claim C5. For a chunk id that no chunk of the store carries, \<open>expand\<close> returns the empty
  list whatever \<open>includeChildren\<close> is, and the expand tool answers with the structured
  result \<open>{success: false, error: "Chunk <id> not found"}\<close>; it is a value, nothing is
  thrown.
\<close>

theorem expand_unknown_not_found:
  assumes "cid \<notin> chunk_id ` set (chunks st)"
  shows "expand st cid includeChildren = []
         \<and> expandTool_execute h st
              \<lparr>arg_chunk_id = cid, arg_include_children = ic, arg_preview_only = po\<rparr>
             = expandBlank\<lparr>er_success := False,
                            er_error := Some (''Chunk '' @ cid @ '' not found'')\<rparr>"
proof -
  have "getChunk st cid = None"
    using assms by (simp add: getChunk_None_iff)
  then have "expand st cid b = []" for b
    by (simp add: expand_def)
  then show ?thesis
    by (simp add: expandTool_execute_def)
qed

theorem expand_unknown_not_found_witness:
  "expand emptyStore ''ch_nonexistent123'' True = []
   \<and> er_success (expandTool_execute host0 emptyStore
        \<lparr>arg_chunk_id = ''ch_nonexistent123'', arg_include_children = None,
         arg_preview_only = None\<rparr>) = False
   \<and> er_error (expandTool_execute host0 emptyStore
        \<lparr>arg_chunk_id = ''ch_nonexistent123'', arg_include_children = None,
         arg_preview_only = None\<rparr>) = Some ''Chunk ch_nonexistent123 not found''"
proof -
  have "''ch_nonexistent123'' \<notin> chunk_id ` set (chunks emptyStore)"
    by (simp add: emptyStore_def)
  from expand_unknown_not_found [OF this, of True host0 None None]
  show ?thesis by simp
qed

section \<open>Token estimate and warning of a full expansion\<close>

text \<open>
  Claim C7. When the expand tool performs a full expansion (the chunk resolves and
  \<open>preview_only\<close> is not set), the content of the response is the formatted chunks, the
  token estimate is the ceiling of a quarter of its character count, and a warning is
  attached exactly when that estimate exceeds 4000.
\<close>

theorem expand_full_estimate:
  assumes "expand st (arg_chunk_id args) (optTrue (arg_include_children args)) = cs"
    and "cs \<noteq> []"
    and "\<not> optTrue (arg_preview_only args)"
    and "formatted = join chunkSeparator (map (formatChunkContent h) cs)"
  shows "er_content (expandTool_execute h st args) = Some formatted
         \<and> er_estimated_tokens (expandTool_execute h st args)
             = Some (nat \<lceil>real (length formatted) / 4\<rceil>)
         \<and> (er_warning (expandTool_execute h st args) \<noteq> None
              \<longleftrightarrow> nat \<lceil>real (length formatted) / 4\<rceil> > 4000)"
  using assms
  by (simp add: expandTool_execute_def Let_def estimateTokens_def CHARS_PER_TOKEN_def
      LARGE_RESPONSE_TOKEN_THRESHOLD_def expandBlank_def)

theorem expand_full_estimate_witness:
  "er_content (expandTool_execute host0 oneChunkStore expandArgs0)
     = Some (formatChunkContent host0 (hd (chunks oneChunkStore)))
   \<and> er_estimated_tokens (expandTool_execute host0 oneChunkStore expandArgs0)
       = Some (nat \<lceil>real (length (formatChunkContent host0 (hd (chunks oneChunkStore)))) / 4\<rceil>)"
proof -
  have e: "expand oneChunkStore (arg_chunk_id expandArgs0)
             (optTrue (arg_include_children expandArgs0)) = [hd (chunks oneChunkStore)]"
    by (simp add: expand_def getChunk_def oneChunkStore_chunks expandArgs0_def optTrue_def)
  have ne: "[hd (chunks oneChunkStore)] \<noteq> []" by simp
  have p: "\<not> optTrue (arg_preview_only expandArgs0)"
    by (simp add: expandArgs0_def optTrue_def)
  have f: "formatChunkContent host0 (hd (chunks oneChunkStore))
         = join chunkSeparator (map (formatChunkContent host0) [hd (chunks oneChunkStore)])"
    by simp
  from expand_full_estimate [OF e ne p f] show ?thesis by simp
qed

section \<open>The warning of the history tool\<close>

lemma history_search_response:
  assumes q: "truthy (map_option trim (arg_query args))"
    and r: "search svc (orEmpty (map_option trim (arg_query args)))
              \<lparr>so_sessionId = fst (searchTarget args ctx), so_depth = arg_depth args,
               so_limit = (case arg_limit args of None \<Rightarrow> 10 | Some l \<Rightarrow> l)\<rparr> = results"
    and ne: "results \<noteq> []"
  shows "hr_warning (historyTool_execute h stringify svc args ctx) \<noteq> None
         \<longleftrightarrow> estimatedExpandedTokens results > LARGE_RESULT_TOKEN_THRESHOLD
             \<and> length results > 3"
  using q r ne
  by (cases "searchTarget args ctx") (simp add: historyTool_execute_def Let_def)

text \<open>
  Claim C8, as stated, fails: a single search result whose summary has 401 characters is
  estimated at 2005 tokens, above the threshold of 2000, and the response carries no
  warning.
\<close>

theorem history_warning_counterexample:
  "search oneResultService ''x''
       \<lparr>so_sessionId = Some ''s1'', so_depth = None, so_limit = 10\<rparr> \<noteq> []
   \<and> estimatedExpandedTokens
        (search oneResultService ''x''
           \<lparr>so_sessionId = Some ''s1'', so_depth = None, so_limit = 10\<rparr>)
       > LARGE_RESULT_TOKEN_THRESHOLD
   \<and> hr_warning (historyTool_execute host0 stringify0 oneResultService queryArgs ctx0) = None"
  by (simp add: oneResultService_def estimatedExpandedTokens_def expandedStep_nat
      longSummaryChunk_def longResult_def orEmpty_def LARGE_RESULT_TOKEN_THRESHOLD_def
      historyTool_execute_def searchTarget_def queryArgs_def ctx0_def optTrue_def trim_x
      truthy_def Let_def)

text \<open>
  Claim C8, amended. For a non-empty search result set the history tool attaches a warning
  exactly when the estimated cost of expanding all results exceeds 2000 tokens and there
  are more than 3 results.
\<close>

theorem history_warning_iff:
  assumes "truthy (map_option trim (arg_query args))"
    and "search svc (orEmpty (map_option trim (arg_query args)))
              \<lparr>so_sessionId = fst (searchTarget args ctx), so_depth = arg_depth args,
               so_limit = (case arg_limit args of None \<Rightarrow> 10 | Some l \<Rightarrow> l)\<rparr> = results"
    and "results \<noteq> []"
  shows "hr_warning (historyTool_execute h stringify svc args ctx) \<noteq> None
         \<longleftrightarrow> estimatedExpandedTokens results > 2000 \<and> length results > 3"
  using history_search_response [OF assms]
  by (simp add: LARGE_RESULT_TOKEN_THRESHOLD_def)

theorem history_warning_iff_witness:
  "hr_warning (historyTool_execute host0 stringify0 fourResultService queryArgs ctx0) \<noteq> None
   \<and> estimatedExpandedTokens [longResult, longResult, longResult, longResult] > 2000"
proof -
  have q: "truthy (map_option trim (arg_query queryArgs))"
    by (simp add: queryArgs_def trim_x truthy_def)
  have r: "search fourResultService (orEmpty (map_option trim (arg_query queryArgs)))
              \<lparr>so_sessionId = fst (searchTarget queryArgs ctx0), so_depth = arg_depth queryArgs,
               so_limit = (case arg_limit queryArgs of None \<Rightarrow> 10 | Some l \<Rightarrow> l)\<rparr>
           = [longResult, longResult, longResult, longResult]"
    by (simp add: fourResultService_def)
  have ne: "[longResult, longResult, longResult, longResult] \<noteq> []"
    by simp
  have big: "estimatedExpandedTokens [longResult, longResult, longResult, longResult] > 2000"
    by (simp add: estimatedExpandedTokens_def expandedStep_nat longSummaryChunk_def
        longResult_def orEmpty_def)
  show ?thesis
    using history_warning_iff [OF q r ne, of host0 stringify0] big by simp
qed


section \<open>The history tool searches the first session only\<close>

lemma searchTarget_ids:
  "searchTarget (args\<lparr>arg_session_ids := Some (a # rest)\<rparr>) ctx
     = (Some a, ''sessions: '' @ join '', '' (a # rest))"
  by (simp add: searchTarget_def)

lemma history_first_independent:
  assumes "\<forall>q opts. so_sessionId opts = Some a \<longrightarrow> search svc q opts = search svc' q opts"
    and "\<forall>opts. ro_sessionId opts = Some a
           \<longrightarrow> getRecentChunks svc opts = getRecentChunks svc' opts"
  shows "historyTool_execute h stringify svc (args\<lparr>arg_session_ids := Some (a # rest)\<rparr>) ctx
         = historyTool_execute h stringify svc' (args\<lparr>arg_session_ids := Some (a # rest)\<rparr>) ctx"
proof -
  let ?args = "args\<lparr>arg_session_ids := Some (a # rest)\<rparr>"
  have t: "searchTarget ?args ctx = (Some a, ''sessions: '' @ join '', '' (a # rest))"
    by (rule searchTarget_ids)
  have s: "search svc q \<lparr>so_sessionId = Some a, so_depth = d, so_limit = l\<rparr>
         = search svc' q \<lparr>so_sessionId = Some a, so_depth = d, so_limit = l\<rparr>" for q d l
    using assms(1) by simp
  have r: "getRecentChunks svc \<lparr>ro_sessionId = Some a, ro_limit = l\<rparr>
         = getRecentChunks svc' \<lparr>ro_sessionId = Some a, ro_limit = l\<rparr>" for l
    using assms(2) by simp
  show ?thesis
    unfolding historyTool_execute_def t by (simp add: s r Let_def)
qed

lemma history_first_scope:
  "hr_scope (historyTool_execute h stringify svc
               (args\<lparr>arg_session_ids := Some (a # rest)\<rparr>) ctx)
     = ''sessions: '' @ join '', '' (a # rest)"
  unfolding historyTool_execute_def searchTarget_ids by (simp add: Let_def)

lemma history_first_search:
  assumes "truthy (map_option trim (arg_query args))"
    and "results = search svc (orEmpty (map_option trim (arg_query args)))
           \<lparr>so_sessionId = Some a, so_depth = arg_depth args,
            so_limit = (case arg_limit args of None \<Rightarrow> 10 | Some l \<Rightarrow> l)\<rparr>"
  shows "hr_mode (historyTool_execute h stringify svc
                    (args\<lparr>arg_session_ids := Some (a # rest)\<rparr>) ctx) = ''search''
         \<and> hr_count (historyTool_execute h stringify svc
                        (args\<lparr>arg_session_ids := Some (a # rest)\<rparr>) ctx) = length results
         \<and> hr_chunks (historyTool_execute h stringify svc
                         (args\<lparr>arg_session_ids := Some (a # rest)\<rparr>) ctx)
             = (if results = [] then None else Some (map formatResult results))"
  using assms
  unfolding historyTool_execute_def searchTarget_ids by (simp add: Let_def)

lemma history_first_recent:
  assumes "\<not> truthy (map_option trim (arg_query args))"
    and "recent = getRecentChunks svc
           \<lparr>ro_sessionId = Some a,
            ro_limit = (case arg_limit args of None \<Rightarrow> 10 | Some l \<Rightarrow> l)\<rparr>"
  shows "hr_mode (historyTool_execute h stringify svc
                    (args\<lparr>arg_session_ids := Some (a # rest)\<rparr>) ctx) = ''recent''
         \<and> hr_count (historyTool_execute h stringify svc
                        (args\<lparr>arg_session_ids := Some (a # rest)\<rparr>) ctx) = length recent
         \<and> hr_chunks (historyTool_execute h stringify svc
                         (args\<lparr>arg_session_ids := Some (a # rest)\<rparr>) ctx)
             = (if recent = [] then None else Some (map (formatRecent h) recent))"
  using assms
  unfolding historyTool_execute_def searchTarget_ids by (simp add: Let_def)

text \<open>
  Claim C10. When \<open>session_ids\<close> holds two or more ids, the tool queries the chunk
  service for the first id, and for that id only. The session handed to the service is
  the first id; with a query, the count and the chunks of the response are those of the
  search on the first id (formatted), and without a query those of the recent chunks of the
  first id. Two services that agree on the first session give the same response, whatever
  they hold for the other sessions. The reported scope nevertheless enumerates all the
  supplied ids.
\<close>

theorem history_first_session_only:
  assumes "\<forall>q opts. so_sessionId opts = Some a \<longrightarrow> search svc q opts = search svc' q opts"
    and "\<forall>opts. ro_sessionId opts = Some a
           \<longrightarrow> getRecentChunks svc opts = getRecentChunks svc' opts"
    and "results = search svc (orEmpty (map_option trim (arg_query args)))
           \<lparr>so_sessionId = Some a, so_depth = arg_depth args,
            so_limit = (case arg_limit args of None \<Rightarrow> 10 | Some l \<Rightarrow> l)\<rparr>"
    and "recent = getRecentChunks svc
           \<lparr>ro_sessionId = Some a,
            ro_limit = (case arg_limit args of None \<Rightarrow> 10 | Some l \<Rightarrow> l)\<rparr>"
    and "resp = historyTool_execute h stringify svc
                  (args\<lparr>arg_session_ids := Some (a # b # rest)\<rparr>) ctx"
  shows "resp = historyTool_execute h stringify svc'
                  (args\<lparr>arg_session_ids := Some (a # b # rest)\<rparr>) ctx
       \<and> hr_scope resp = ''sessions: '' @ a @ '', '' @ join '', '' (b # rest)
       \<and> fst (searchTarget (args\<lparr>arg_session_ids := Some (a # b # rest)\<rparr>) ctx) = Some a
       \<and> (if truthy (map_option trim (arg_query args))
           then hr_mode resp = ''search'' \<and> hr_count resp = length results
                \<and> hr_chunks resp
                    = (if results = [] then None else Some (map formatResult results))
           else hr_mode resp = ''recent'' \<and> hr_count resp = length recent
                \<and> hr_chunks resp
                    = (if recent = [] then None else Some (map (formatRecent h) recent)))"
proof -
  have eq: "resp = historyTool_execute h stringify svc'
                     (args\<lparr>arg_session_ids := Some (a # b # rest)\<rparr>) ctx"
    unfolding assms(5) using assms(1,2) by (rule history_first_independent)
  have sc: "hr_scope resp = ''sessions: '' @ a @ '', '' @ join '', '' (b # rest)"
    unfolding assms(5) history_first_scope by simp
  have tg: "fst (searchTarget (args\<lparr>arg_session_ids := Some (a # b # rest)\<rparr>) ctx) = Some a"
    by (simp add: searchTarget_ids)
  have md: "if truthy (map_option trim (arg_query args))
           then hr_mode resp = ''search'' \<and> hr_count resp = length results
                \<and> hr_chunks resp
                    = (if results = [] then None else Some (map formatResult results))
           else hr_mode resp = ''recent'' \<and> hr_count resp = length recent
                \<and> hr_chunks resp
                    = (if recent = [] then None else Some (map (formatRecent h) recent))"
  proof (cases "truthy (map_option trim (arg_query args))")
    case True
    from history_first_search [OF True assms(3), of h stringify "b # rest" ctx] True
    show ?thesis unfolding assms(5) by simp
  next
    case False
    from history_first_recent [OF False assms(4), of h stringify "b # rest" ctx] False
    show ?thesis unfolding assms(5) by simp
  qed
  from eq sc tg md show ?thesis by blast
qed

theorem history_first_session_only_witness:
  "historyTool_execute host0 stringify0 oneResultService twoSessionArgs ctx0
     = historyTool_execute host0 stringify0 firstOnlyService twoSessionArgs ctx0
   \<and> hr_scope (historyTool_execute host0 stringify0 oneResultService twoSessionArgs ctx0)
     = ''sessions: '' @ ''s1'' @ '', '' @ join '', '' [''s2'']
   \<and> search oneResultService ''x''
         \<lparr>so_sessionId = Some ''s2'', so_depth = None, so_limit = 10\<rparr>
       \<noteq> search firstOnlyService ''x''
           \<lparr>so_sessionId = Some ''s2'', so_depth = None, so_limit = 10\<rparr>
   \<and> hr_count (historyTool_execute host0 stringify0 oneResultService twoSessionArgs ctx0) = 1
   \<and> hr_chunks (historyTool_execute host0 stringify0 oneResultService twoSessionArgs ctx0)
       = Some [formatResult longResult]
   \<and> hr_chunks (historyTool_execute host0 stringify0 recentService recentTwoSessionArgs ctx0)
       = Some [formatRecent host0 longSummaryChunk]"
proof -
  have differ: "search oneResultService ''x''
         \<lparr>so_sessionId = Some ''s2'', so_depth = None, so_limit = 10\<rparr>
       \<noteq> search firstOnlyService ''x''
           \<lparr>so_sessionId = Some ''s2'', so_depth = None, so_limit = 10\<rparr>"
    by (simp add: oneResultService_def firstOnlyService_def)
  have 1: "\<forall>q opts. so_sessionId opts = Some ''s1''
             \<longrightarrow> search oneResultService q opts = search firstOnlyService q opts"
    by (simp add: oneResultService_def firstOnlyService_def)
  have 2: "\<forall>opts. ro_sessionId opts = Some ''s1''
             \<longrightarrow> getRecentChunks oneResultService opts = getRecentChunks firstOnlyService opts"
    by (simp add: oneResultService_def firstOnlyService_def)
  have a: "twoSessionArgs\<lparr>arg_session_ids := Some [''s1'', ''s2'']\<rparr> = twoSessionArgs"
    by (simp add: twoSessionArgs_def)
  have q: "truthy (map_option trim (arg_query twoSessionArgs))"
    by (simp add: twoSessionArgs_def trim_x truthy_def)
  have r: "[longResult] = search oneResultService
             (orEmpty (map_option trim (arg_query twoSessionArgs)))
             \<lparr>so_sessionId = Some ''s1'', so_depth = arg_depth twoSessionArgs,
              so_limit = (case arg_limit twoSessionArgs of None \<Rightarrow> 10 | Some l \<Rightarrow> l)\<rparr>"
    by (simp add: oneResultService_def)
  have c: "[] = getRecentChunks oneResultService
             \<lparr>ro_sessionId = Some ''s1'',
              ro_limit = (case arg_limit twoSessionArgs of None \<Rightarrow> 10 | Some l \<Rightarrow> l)\<rparr>"
    by (simp add: oneResultService_def)
  have e: "historyTool_execute host0 stringify0 oneResultService twoSessionArgs ctx0
         = historyTool_execute host0 stringify0 oneResultService
             (twoSessionArgs\<lparr>arg_session_ids := Some [''s1'', ''s2'']\<rparr>) ctx0"
    by (simp add: a)
  have first: "historyTool_execute host0 stringify0 oneResultService twoSessionArgs ctx0
     = historyTool_execute host0 stringify0 firstOnlyService twoSessionArgs ctx0
   \<and> hr_scope (historyTool_execute host0 stringify0 oneResultService twoSessionArgs ctx0)
     = ''sessions: '' @ ''s1'' @ '', '' @ join '', '' [''s2'']
   \<and> hr_count (historyTool_execute host0 stringify0 oneResultService twoSessionArgs ctx0) = 1
   \<and> hr_chunks (historyTool_execute host0 stringify0 oneResultService twoSessionArgs ctx0)
       = Some [formatResult longResult]"
  proof -
    note inst = history_first_session_only [OF 1 2 r c e, unfolded a]
    from inst have same:
      "historyTool_execute host0 stringify0 oneResultService twoSessionArgs ctx0
         = historyTool_execute host0 stringify0 firstOnlyService twoSessionArgs ctx0"
      by blast
    from inst have rest:
      "hr_scope (historyTool_execute host0 stringify0 oneResultService twoSessionArgs ctx0)
         = ''sessions: '' @ ''s1'' @ '', '' @ join '', '' [''s2'']
       \<and> (if truthy (map_option trim (arg_query twoSessionArgs))
           then hr_mode (historyTool_execute host0 stringify0 oneResultService
                           twoSessionArgs ctx0) = ''search''
                \<and> hr_count (historyTool_execute host0 stringify0 oneResultService
                               twoSessionArgs ctx0) = length [longResult]
                \<and> hr_chunks (historyTool_execute host0 stringify0 oneResultService
                                twoSessionArgs ctx0)
                    = (if [longResult] = [] then None
                       else Some (map formatResult [longResult]))
           else hr_mode (historyTool_execute host0 stringify0 oneResultService
                           twoSessionArgs ctx0) = ''recent''
                \<and> hr_count (historyTool_execute host0 stringify0 oneResultService
                               twoSessionArgs ctx0) = length ([] :: Chunk list)
                \<and> hr_chunks (historyTool_execute host0 stringify0 oneResultService
                                twoSessionArgs ctx0)
                    = (if ([] :: Chunk list) = [] then None
                       else Some (map (formatRecent host0) [])))"
      by blast
    from rest q have
      "hr_scope (historyTool_execute host0 stringify0 oneResultService twoSessionArgs ctx0)
         = ''sessions: '' @ ''s1'' @ '', '' @ join '', '' [''s2'']
       \<and> hr_count (historyTool_execute host0 stringify0 oneResultService
                      twoSessionArgs ctx0) = 1
       \<and> hr_chunks (historyTool_execute host0 stringify0 oneResultService
                       twoSessionArgs ctx0) = Some [formatResult longResult]"
      by simp
    with same show ?thesis by blast
  qed
  have 3: "\<forall>q opts. so_sessionId opts = Some ''s1''
             \<longrightarrow> search recentService q opts = search recentService q opts"
    by simp
  have 4: "\<forall>opts. ro_sessionId opts = Some ''s1''
             \<longrightarrow> getRecentChunks recentService opts = getRecentChunks recentService opts"
    by simp
  have nq: "\<not> truthy (map_option trim (arg_query recentTwoSessionArgs))"
    by (simp add: recentTwoSessionArgs_def truthy_def)
  have rr: "[] = search recentService
             (orEmpty (map_option trim (arg_query recentTwoSessionArgs)))
             \<lparr>so_sessionId = Some ''s1'', so_depth = arg_depth recentTwoSessionArgs,
              so_limit = (case arg_limit recentTwoSessionArgs of None \<Rightarrow> 10 | Some l \<Rightarrow> l)\<rparr>"
    by (simp add: recentService_def)
  have rc: "[longSummaryChunk] = getRecentChunks recentService
             \<lparr>ro_sessionId = Some ''s1'',
              ro_limit = (case arg_limit recentTwoSessionArgs of None \<Rightarrow> 10 | Some l \<Rightarrow> l)\<rparr>"
    by (simp add: recentService_def)
  have ra: "recentTwoSessionArgs\<lparr>arg_session_ids := Some [''s1'', ''s2'']\<rparr>
            = recentTwoSessionArgs"
    by (simp add: recentTwoSessionArgs_def)
  have re: "historyTool_execute host0 stringify0 recentService recentTwoSessionArgs ctx0
         = historyTool_execute host0 stringify0 recentService
             (recentTwoSessionArgs\<lparr>arg_session_ids := Some [''s1'', ''s2'']\<rparr>) ctx0"
    by (simp add: ra)
  have second: "hr_chunks (historyTool_execute host0 stringify0 recentService
                   recentTwoSessionArgs ctx0)
       = Some [formatRecent host0 longSummaryChunk]"
  proof -
    note inst = history_first_session_only [OF 3 4 rr rc re]
    from inst have
      "if truthy (map_option trim (arg_query recentTwoSessionArgs))
       then hr_mode (historyTool_execute host0 stringify0 recentService
                       recentTwoSessionArgs ctx0) = ''search''
            \<and> hr_count (historyTool_execute host0 stringify0 recentService
                           recentTwoSessionArgs ctx0) = length ([] :: SearchResult list)
            \<and> hr_chunks (historyTool_execute host0 stringify0 recentService
                            recentTwoSessionArgs ctx0)
                = (if ([] :: SearchResult list) = [] then None
                   else Some (map formatResult []))
       else hr_mode (historyTool_execute host0 stringify0 recentService
                       recentTwoSessionArgs ctx0) = ''recent''
            \<and> hr_count (historyTool_execute host0 stringify0 recentService
                           recentTwoSessionArgs ctx0) = length [longSummaryChunk]
            \<and> hr_chunks (historyTool_execute host0 stringify0 recentService
                            recentTwoSessionArgs ctx0)
                = (if [longSummaryChunk] = [] then None
                   else Some (map (formatRecent host0) [longSummaryChunk]))"
      by blast
    with nq show ?thesis by simp
  qed
  from first second differ show ?thesis by blast
qed

section \<open>The filter on streamed parts\<close>

lemma dropWhile_all: "dropWhile P xs = [] \<longleftrightarrow> list_all P xs"
  by (induction xs) auto

lemma list_all_dropWhile: "list_all P (dropWhile P xs) \<longleftrightarrow> list_all P xs"
  by (induction xs) auto

lemma trim_empty_iff: "trim t = [] \<longleftrightarrow> blank t"
proof -
  have "trim t = [] \<longleftrightarrow> list_all isWhiteSpace (dropWhile isWhiteSpace t)"
    by (simp add: trim_def dropWhile_all list_all_iff)
  then show ?thesis
    by (simp add: list_all_dropWhile blank_def)
qed

lemma text_skipped_iff:
  "(\<not> truthy t \<or> trim (orEmpty t) = []) \<longleftrightarrow> (case t of None \<Rightarrow> True | Some u \<Rightarrow> blank u)"
  by (cases t) (auto simp: truthy_def orEmpty_def trim_empty_iff blank_def)

lemma stateStatus_Completed:
  "stateStatus part = Some Completed
     \<longleftrightarrow> (case ep_state part of None \<Rightarrow> False | Some ts \<Rightarrow> ts_status ts = Completed)"
  by (cases "ep_state part") (simp_all add: stateStatus_def)

lemma part_filter_eq:
  "handleMessagePartUpdated s part =
     (if acceptedPart part
      then (case addPart (tracker s) (ep_sessionID part) (ep_messageID part) (ep_id part)
                   (chunkPartOf part) of
              Inl e \<Rightarrow> Inl e
            | Inr tr \<Rightarrow> Inr (s\<lparr>tracker := tr\<rparr>))
      else Inr s)"
proof (cases "ep_type part = ''text''")
  case True
  then show ?thesis
    using text_skipped_iff [of "ep_text part"]
    by (cases "ep_text part")
       (simp_all add: handleMessagePartUpdated_def acceptedPart_def chunkPartOf_def)
next
  case False
  then show ?thesis
    using stateStatus_Completed [of part]
    by (simp add: handleMessagePartUpdated_def acceptedPart_def chunkPartOf_def)
qed


text \<open>
  Claim C2. A streamed part reaches the tracker only if it is a text part with non-blank
  text or a tool part whose state is \<open>completed\<close>; then \<open>addPart\<close> is called with the
  converted part. Every other part (blank or missing text, a tool part that is pending,
  running, failed or without state, any other type) leaves the state as it was, so
  nothing of it can be persisted later.
\<close>

theorem part_filter:
  "handleMessagePartUpdated s part =
     (if acceptedPart part
      then (case addPart (tracker s) (ep_sessionID part) (ep_messageID part) (ep_id part)
                   (chunkPartOf part) of
              Inl e \<Rightarrow> Inl e
            | Inr tr \<Rightarrow> Inr (s\<lparr>tracker := tr\<rparr>))
      else Inr s)"
  by (rule part_filter_eq)

lemma draftState_tracker:
  "tracker draftState = [(''s1'', [(''msg-1'', \<lparr>draft_role = Assistant, draft_parts = []\<rparr>)])]"
  by (simp add: draftState_def handleMessageUpdated_def initialState_def ensureMessage_def
      draftsOf_def roleOf_def Let_def)

theorem part_filter_witness:
  "handleMessagePartUpdated draftState runningToolEvent = Inr draftState
   \<and> handleMessagePartUpdated draftState reasoningEvent = Inr draftState
   \<and> handleMessagePartUpdated draftState textEvent
       = Inr (draftState\<lparr>tracker :=
           [(''s1'', [(''msg-1'', \<lparr>draft_role = Assistant,
               draft_parts = [(''prt-1'', \<lparr>part_type = TextPart, part_text = Some ''Hello'',
                   part_tool = None, part_input = None, part_output = None\<rparr>)]\<rparr>)])]\<rparr>)"
proof -
  have r: "\<not> acceptedPart runningToolEvent"
    by (simp add: acceptedPart_def runningToolEvent_def)
  have g: "\<not> acceptedPart reasoningEvent"
    by (simp add: acceptedPart_def reasoningEvent_def)
  have t: "acceptedPart textEvent"
    by (simp add: acceptedPart_def textEvent_def blank_def isWhiteSpace_def)
  have a: "addPart (tracker draftState) (ep_sessionID textEvent) (ep_messageID textEvent)
             (ep_id textEvent) (chunkPartOf textEvent)
           = Inr [(''s1'', [(''msg-1'', \<lparr>draft_role = Assistant,
               draft_parts = [(''prt-1'', \<lparr>part_type = TextPart, part_text = Some ''Hello'',
                   part_tool = None, part_input = None, part_output = None\<rparr>)]\<rparr>)])]"
    by (simp add: draftState_tracker addPart_def draftsOf_def textEvent_def chunkPartOf_def)
  show ?thesis
    using part_filter [of draftState runningToolEvent] part_filter [of draftState reasoningEvent]
      part_filter [of draftState textEvent] r g t a
    by simp
qed

section \<open>Finalize without drafts\<close>

lemma draftsOf_clearSession: "draftsOf (clearSession tr sid) sid = []"
  by (simp add: draftsOf_def clearSession_def delete_conv)

lemma finalize_without_drafts:
  "draftsOf (tracker s) sid = [] \<Longrightarrow> finalize p s sid now = (s, None)"
  by (simp add: finalize_def hasMessages_def)

lemma finalize_clears: "draftsOf (tracker (fst (finalize p s sid now))) sid = []"
  by (cases "draftsOf (tracker s) sid = []")
     (simp_all add: finalize_def hasMessages_def draftsOf_clearSession Let_def
        split: prod.splits)

text \<open>
  Claim C4. With no draft messages for the session, \<open>finalize\<close> creates no chunk and
  returns the state unchanged (and so does the \<open>session.idle\<close> handler); and a second
  \<open>finalize\<close> right after a first one, with nothing tracked in between, creates no
  chunk and changes nothing.
\<close>

theorem finalize_noop_idempotent:
  "(draftsOf (tracker s) sid = []
      \<longrightarrow> finalize p s sid now = (s, None) \<and> handleSessionIdle env s sid now = s)
   \<and> finalize p (fst (finalize p s sid now)) sid now' = (fst (finalize p s sid now), None)"
  by (simp add: finalize_without_drafts finalize_clears handleSessionIdle_def)

theorem finalize_noop_idempotent_witness:
  "draftsOf (tracker initialState) ''s1'' = []
   \<and> finalize noPaths initialState ''s1'' 0 = (initialState, None)
   \<and> handleSessionIdle env0 initialState ''s1'' 0 = initialState
   \<and> snd (finalize noPaths draftState ''s1'' 0) \<noteq> None
   \<and> finalize noPaths (fst (finalize noPaths draftState ''s1'' 0)) ''s1'' 1
       = (fst (finalize noPaths draftState ''s1'' 0), None)"
proof -
  have d: "draftsOf (tracker initialState) ''s1'' = []"
    by (simp add: initialState_def draftsOf_def)
  have c: "snd (finalize noPaths draftState ''s1'' 0) \<noteq> None"
    by (simp add: finalize_def hasMessages_def draftState_tracker draftsOf_def Let_def
        split: prod.splits)
  show ?thesis
    using finalize_noop_idempotent [of initialState "''s1''" noPaths 0 env0 1]
      finalize_noop_idempotent [of draftState "''s1''" noPaths 0 env0 1] d c
    by simp
qed


section \<open>Fresh ids\<close>

lemma digit_val: "d < 10 \<Longrightarrow> of_char (digit d) - (48::nat) = d"
  by (simp add: digit_def)

lemma readNat_showNat: "readNat (showNat n) = n"
proof (induction n rule: showNat.induct)
  case (1 n)
  show ?case
  proof (cases "n < 10")
    case True
    then show ?thesis
      by (subst showNat.simps) (simp add: readNat_def digit_val)
  next
    case False
    with 1 have ih: "readNat (showNat (n div 10)) = n div 10" by simp
    have "readNat (showNat n) = 10 * readNat (showNat (n div 10)) + n mod 10"
      using False by (subst showNat.simps) (simp add: readNat_def digit_val)
    then show ?thesis using ih by simp
  qed
qed

lemma showNat_inj: "showNat m = showNat n \<Longrightarrow> m = n"
  by (metis readNat_showNat)

lemma idOf_inj: "idOf m = idOf n \<longleftrightarrow> m = n"
  by (auto simp: idOf_def dest: showNat_inj)

section \<open>The store invariant\<close>

lemma store_ok_empty: "store_ok emptyStore"
  by (simp add: store_ok_def emptyStore_def)

lemma fresh_id:
  assumes "store_ok st"
  shows "idOf (nextId st) \<notin> chunk_id ` set (chunks st)"
proof
  assume "idOf (nextId st) \<in> chunk_id ` set (chunks st)"
  then obtain c where c: "c \<in> set (chunks st)" "chunk_id c = idOf (nextId st)"
    by auto
  with assms obtain k where "k < nextId st" "chunk_id c = idOf k"
    unfolding store_ok_def by blast
  with c show False by (simp add: idOf_inj)
qed

lemma store_ok_create:
  assumes "store_ok st"
  shows "store_ok (fst (create st sid cont now))"
proof -
  have f: "idOf (nextId st) \<notin> chunk_id ` set (chunks st)"
    using assms by (rule fresh_id)
  have d: "distinct (map chunk_id (chunks st))"
    and k: "\<forall>c\<in>set (chunks st). \<exists>k<nextId st. chunk_id c = idOf k"
    and r: "\<forall>c\<in>set (chunks st). \<forall>r\<in>set (childRefs c).
              \<exists>d\<in>set (chunks st). chunk_id d = r \<and> sessionId d = sessionId c"
    using assms unfolding store_ok_def by blast+
  have k': "\<forall>c\<in>set (chunks st). \<exists>k<Suc (nextId st). chunk_id c = idOf k"
    using k less_Suc_eq by blast
  show ?thesis
    unfolding store_ok_def
    using f d k' r by (auto simp: create_def Let_def)
qed

lemma getChunk_Some_id: "getChunk st r = Some d \<Longrightarrow> chunk_id d = r \<and> d \<in> set (chunks st)"
  by (auto simp: getChunk_def find_Some_iff)

lemma getChunk_member:
  assumes "distinct (map chunk_id (chunks st))" and "c \<in> set (chunks st)"
  shows "getChunk st (chunk_id c) = Some c"
proof -
  have "getChunk st (chunk_id c) \<noteq> None"
    using assms(2) by (auto simp: getChunk_def find_None_iff)
  then obtain d where d: "getChunk st (chunk_id c) = Some d" by auto
  then have "chunk_id d = chunk_id c" "d \<in> set (chunks st)"
    using getChunk_Some_id by blast+
  with assms have "d = c"
    by (meson distinct_map inj_onD)
  with d show ?thesis by simp
qed

lemma resolve_all:
  assumes "\<forall>r\<in>set rs. \<exists>d\<in>set (chunks st). chunk_id d = r"
  shows "map chunk_id (List.map_filter (getChunk st) rs) = rs
         \<and> set (List.map_filter (getChunk st) rs) \<subseteq> set (chunks st)"
  using assms
proof (induction rs)
  case Nil
  then show ?case by (simp add: map_filter_simps)
next
  case (Cons r rs)
  then obtain d where "d \<in> set (chunks st)" "chunk_id d = r" by auto
  then have "getChunk st r \<noteq> None"
    by (auto simp: getChunk_def find_None_iff)
  then obtain e where e: "getChunk st r = Some e" by auto
  with getChunk_Some_id have "chunk_id e = r" "e \<in> set (chunks st)" by blast+
  with Cons e show ?case by (simp add: map_filter_simps)
qed

text \<open>
  Claim C6. In a store that satisfies the invariant, expanding an existing chunk with
  \<open>includeChildren = true\<close> returns the chunk followed by the chunks that its
  \<open>childRefs\<close> name, in that order and nothing else: \<open>k + 1\<close> chunks for \<open>k\<close> child
  references. With \<open>includeChildren\<close> false, or omitted in the tool's arguments, it
  returns the chunk alone. The expand tool reports these counts as \<open>chunk_count\<close>.
\<close>

theorem expand_children:
  assumes "store_ok st" and "c \<in> set (chunks st)"
  shows "length (expand st (chunk_id c) True) = length (childRefs c) + 1
         \<and> hd (expand st (chunk_id c) True) = c
         \<and> map chunk_id (expand st (chunk_id c) True) = chunk_id c # childRefs c
         \<and> set (expand st (chunk_id c) True) \<subseteq> set (chunks st)
         \<and> expand st (chunk_id c) False = [c]
         \<and> er_chunk_count (expandTool_execute h st
              \<lparr>arg_chunk_id = chunk_id c, arg_include_children = Some True,
               arg_preview_only = po\<rparr>) = Some (length (childRefs c) + 1)
         \<and> er_chunk_count (expandTool_execute h st
              \<lparr>arg_chunk_id = chunk_id c, arg_include_children = None,
               arg_preview_only = po\<rparr>) = Some 1"
proof -
  have g: "getChunk st (chunk_id c) = Some c"
    using assms by (simp add: getChunk_member store_ok_def)
  have "\<forall>r\<in>set (childRefs c). \<exists>d\<in>set (chunks st). chunk_id d = r"
    using assms unfolding store_ok_def by blast
  from resolve_all [OF this]
  have m: "map chunk_id (List.map_filter (getChunk st) (childRefs c)) = childRefs c"
    and s: "set (List.map_filter (getChunk st) (childRefs c)) \<subseteq> set (chunks st)"
    by simp_all
  have e: "expand st (chunk_id c) True = c # List.map_filter (getChunk st) (childRefs c)"
    using g by (cases "childRefs c") (simp_all add: expand_def map_filter_simps)
  have l: "length (List.map_filter (getChunk st) (childRefs c)) = length (childRefs c)"
    using m by (metis length_map)
  have f: "expand st (chunk_id c) False = [c]"
    using g by (simp add: expand_def)
  have t1: "er_chunk_count (expandTool_execute h st
              \<lparr>arg_chunk_id = chunk_id c, arg_include_children = Some True,
               arg_preview_only = po\<rparr>) = Some (length (childRefs c) + 1)"
    using e l by (simp add: expandTool_execute_def optTrue_def expandBlank_def Let_def)
  have t2: "er_chunk_count (expandTool_execute h st
              \<lparr>arg_chunk_id = chunk_id c, arg_include_children = None,
               arg_preview_only = po\<rparr>) = Some 1"
    using f by (simp add: expandTool_execute_def optTrue_def expandBlank_def Let_def)
  show ?thesis
    using e l m s f t1 t2 assms(2) by simp
qed


section \<open>Compaction\<close>

lemma compact_noop:
  "length (getActiveChunks st sid) \<le> 1 \<Longrightarrow> compact_session st sid summ now = (st, None)"
  by (simp add: compact_session_def)

lemma active_member:
  "c \<in> set (getActiveChunks st sid)
     \<longleftrightarrow> c \<in> set (chunks st) \<and> sessionId c = sid \<and> status c = Active"
  by (auto simp: getActiveChunks_def)

lemma flip_by_id:
  assumes "distinct (map chunk_id (chunks st))" and "c \<in> set (chunks st)"
  shows "chunk_id c \<in> set (map chunk_id (getActiveChunks st sid))
           \<longleftrightarrow> c \<in> set (getActiveChunks st sid)"
proof
  assume "chunk_id c \<in> set (map chunk_id (getActiveChunks st sid))"
  then obtain a where a: "a \<in> set (getActiveChunks st sid)" "chunk_id a = chunk_id c"
    by auto
  then have "a \<in> set (chunks st)" by (simp add: active_member)
  with assms a have "a = c" by (meson distinct_map inj_onD)
  with a show "c \<in> set (getActiveChunks st sid)" by simp
qed auto

lemma flip_map:
  assumes d: "distinct (map chunk_id (chunks st))"
  shows "map (\<lambda>c. if chunk_id c \<in> set (map chunk_id (getActiveChunks st sid))
                   then c\<lparr>status := Compacted\<rparr> else c) (chunks st)
          = map (\<lambda>c. if c \<in> set (getActiveChunks st sid)
                      then c\<lparr>status := Compacted\<rparr> else c) (chunks st)"
proof (rule map_cong [OF refl])
  fix c assume "c \<in> set (chunks st)"
  from flip_by_id [OF d this, of sid]
  show "(if chunk_id c \<in> set (map chunk_id (getActiveChunks st sid))
         then c\<lparr>status := Compacted\<rparr> else c)
        = (if c \<in> set (getActiveChunks st sid) then c\<lparr>status := Compacted\<rparr> else c)"
    by simp
qed

lemma none_active_after_flip:
  "filter (\<lambda>c. sessionId c = sid \<and> status c = Active)
     (map (\<lambda>c. if c \<in> set (getActiveChunks st sid)
                then c\<lparr>status := Compacted\<rparr> else c) (chunks st)) = []"
  unfolding filter_empty_conv
proof
  fix x
  assume "x \<in> set (map (\<lambda>c. if c \<in> set (getActiveChunks st sid)
                            then c\<lparr>status := Compacted\<rparr> else c) (chunks st))"
  then obtain c where c: "c \<in> set (chunks st)"
    "x = (if c \<in> set (getActiveChunks st sid) then c\<lparr>status := Compacted\<rparr> else c)"
    by auto
  show "\<not> (sessionId x = sid \<and> status x = Active)"
  proof (cases "c \<in> set (getActiveChunks st sid)")
    case True
    with c show ?thesis by simp
  next
    case False
    with c show ?thesis by (simp add: active_member)
  qed
qed


lemma compact_unfold:
  assumes "1 < length (getActiveChunks st sid)"
  shows "compact_session st sid summ now =
     (let activeChunks = getActiveChunks st sid;
          chosen = (case summ of Some t \<Rightarrow> t
                    | None \<Rightarrow> generateCompactionSummary activeChunks);
          new = \<lparr>chunk_id = idOf (nextId st), sessionId = sid,
                  content = \<lparr>messages = [], metadata = emptyMetadata\<rparr>,
                  summary = Some chosen, status = Active,
                  depth = 1 + Max (set (map depth activeChunks)),
                  childRefs = map chunk_id activeChunks, createdAt = now\<rparr>;
          flip = (\<lambda>c. if chunk_id c \<in> set (map chunk_id activeChunks)
                       then c\<lparr>status := Compacted\<rparr> else c)
      in (st\<lparr>chunks := map flip (chunks st) @ [flip new], nextId := Suc (nextId st)\<rparr>,
          Some \<lparr>summaryChunk = new,
                compactedChunks = map (\<lambda>c. c\<lparr>status := Compacted\<rparr>) activeChunks\<rparr>))"
  using assms by (simp add: compact_session_def Let_def)

lemma compact_effect:
  assumes ok: "store_ok st" and many: "1 < length (getActiveChunks st sid)"
  shows "\<exists>st' new.
           compact_session st sid summ now
             = (st', Some \<lparr>summaryChunk = new,
                           compactedChunks = map (\<lambda>c. c\<lparr>status := Compacted\<rparr>)
                                               (getActiveChunks st sid)\<rparr>)
           \<and> chunks st'
               = map (\<lambda>c. if c \<in> set (getActiveChunks st sid)
                          then c\<lparr>status := Compacted\<rparr> else c) (chunks st) @ [new]
           \<and> nextId st' = Suc (nextId st)
           \<and> chunk_id new = idOf (nextId st)
           \<and> chunk_id new \<notin> chunk_id ` set (chunks st)
           \<and> sessionId new = sid
           \<and> status new = Active
           \<and> depth new = 1 + Max (depth ` set (getActiveChunks st sid))
           \<and> childRefs new = map chunk_id (getActiveChunks st sid)
           \<and> messages (content new) = []
           \<and> summary new
               = Some (case summ of Some t \<Rightarrow> t
                       | None \<Rightarrow> generateCompactionSummary (getActiveChunks st sid))
           \<and> getActiveChunks st' sid = [new]"
proof -
  let ?act = "getActiveChunks st sid"
  let ?flip = "\<lambda>c. if c \<in> set ?act then c\<lparr>status := Compacted\<rparr> else c"
  define new where
    "new = \<lparr>chunk_id = idOf (nextId st), sessionId = sid,
            content = \<lparr>messages = [], metadata = emptyMetadata\<rparr>,
            summary = Some (case summ of Some t \<Rightarrow> t
                            | None \<Rightarrow> generateCompactionSummary ?act),
            status = Active,
            depth = 1 + Max (set (map depth ?act)),
            childRefs = map chunk_id ?act, createdAt = now\<rparr>"
  define st' where
    "st' = st\<lparr>chunks := map ?flip (chunks st) @ [new], nextId := Suc (nextId st)\<rparr>"
  have fresh: "idOf (nextId st) \<notin> chunk_id ` set (chunks st)"
    using ok by (rule fresh_id)
  have sub: "set ?act \<subseteq> set (chunks st)"
    by (auto simp: active_member)
  have nid: "chunk_id new \<notin> set (map chunk_id ?act)"
    using fresh sub by (auto simp: new_def)
  have d: "distinct (map chunk_id (chunks st))"
    using ok by (simp add: store_ok_def)
  have c: "compact_session st sid summ now
             = (st', Some \<lparr>summaryChunk = new,
                           compactedChunks = map (\<lambda>c. c\<lparr>status := Compacted\<rparr>) ?act\<rparr>)"
    unfolding compact_unfold [OF many] Let_def flip_map [OF d]
    unfolding new_def [symmetric]
    using nid by (simp add: st'_def)
  have ch: "chunks st' = map ?flip (chunks st) @ [new]"
    by (simp add: st'_def)
  have ga: "getActiveChunks st' sid = [new]"
    unfolding getActiveChunks_def [of st'] ch
    using none_active_after_flip [of sid st] by (simp add: new_def)
  have props: "nextId st' = Suc (nextId st)" "chunk_id new = idOf (nextId st)"
    "chunk_id new \<notin> chunk_id ` set (chunks st)" "sessionId new = sid"
    "status new = Active" "depth new = 1 + Max (depth ` set ?act)"
    "childRefs new = map chunk_id ?act" "messages (content new) = []"
    "summary new = Some (case summ of Some t \<Rightarrow> t
                         | None \<Rightarrow> generateCompactionSummary ?act)"
    using fresh by (simp_all add: new_def st'_def)
  show ?thesis
    apply (rule exI [of _ st'])
    apply (rule exI [of _ new])
    apply (intro conjI)
    apply (rule c)
    apply (rule ch)
    apply (rule props)+
    apply (rule ga)
    done
qed


lemma store_ok_compact:
  assumes ok: "store_ok st"
  shows "store_ok (fst (compact_session st sid summ now))"
proof (cases "1 < length (getActiveChunks st sid)")
  case False
  then show ?thesis using ok by (simp add: compact_noop)
next
  case True
  let ?act = "getActiveChunks st sid"
  let ?flip = "\<lambda>c. if c \<in> set ?act then c\<lparr>status := Compacted\<rparr> else c"
  from compact_effect [OF ok True, of summ now]
  obtain st' new where c: "compact_session st sid summ now
        = (st', Some \<lparr>summaryChunk = new,
                      compactedChunks = map (\<lambda>c. c\<lparr>status := Compacted\<rparr>) ?act\<rparr>)"
    and ch: "chunks st' = map ?flip (chunks st) @ [new]"
    and nx: "nextId st' = Suc (nextId st)"
    and ni: "chunk_id new = idOf (nextId st)"
    and fr: "chunk_id new \<notin> chunk_id ` set (chunks st)"
    and se: "sessionId new = sid"
    and cr: "childRefs new = map chunk_id ?act"
    by blast
  have d: "distinct (map chunk_id (chunks st))"
    and k: "\<forall>c\<in>set (chunks st). \<exists>k<nextId st. chunk_id c = idOf k"
    and r: "\<forall>c\<in>set (chunks st). \<forall>r\<in>set (childRefs c).
              \<exists>d\<in>set (chunks st). chunk_id d = r \<and> sessionId d = sessionId c"
    using ok unfolding store_ok_def by blast+
  have ids: "map chunk_id (map ?flip (chunks st)) = map chunk_id (chunks st)"
    by (simp add: comp_def if_distrib [of chunk_id] cong: if_cong)
  have d': "distinct (map chunk_id (chunks st'))"
    using d fr by (simp add: ch ids del: map_map)
  have k': "\<forall>c\<in>set (chunks st'). \<exists>k<nextId st'. chunk_id c = idOf k"
  proof
    fix c assume "c \<in> set (chunks st')"
    then consider c0 where "c0 \<in> set (chunks st)" "c = ?flip c0" | "c = new"
      by (auto simp: ch)
    then show "\<exists>k<nextId st'. chunk_id c = idOf k"
    proof cases
      case 1
      then have "chunk_id c = chunk_id c0" by simp
      with k 1 obtain j where "j < nextId st" "chunk_id c = idOf j" by metis
      then show ?thesis using nx less_Suc_eq by metis
    next
      case 2
      then have "nextId st < nextId st'" "chunk_id c = idOf (nextId st)"
        using ni nx by simp_all
      then show ?thesis by (intro exI [of _ "nextId st"]) simp
    qed
  qed
  have keep: "\<exists>e\<in>set (chunks st'). chunk_id e = chunk_id d0 \<and> sessionId e = sessionId d0"
    if "d0 \<in> set (chunks st)" for d0
  proof -
    have "?flip d0 \<in> set (chunks st')" using that by (simp add: ch)
    moreover have "chunk_id (?flip d0) = chunk_id d0" "sessionId (?flip d0) = sessionId d0"
      by simp_all
    ultimately show ?thesis by blast
  qed
  have r': "\<forall>c\<in>set (chunks st'). \<forall>x\<in>set (childRefs c).
              \<exists>e\<in>set (chunks st'). chunk_id e = x \<and> sessionId e = sessionId c"
  proof (intro ballI)
    fix c x assume cin: "c \<in> set (chunks st')" and x: "x \<in> set (childRefs c)"
    from cin consider c0 where "c0 \<in> set (chunks st)" "c = ?flip c0" | "c = new"
      by (auto simp: ch)
    then show "\<exists>e\<in>set (chunks st'). chunk_id e = x \<and> sessionId e = sessionId c"
    proof cases
      case 1
      then have "childRefs c = childRefs c0" "sessionId c = sessionId c0" by simp_all
      with r 1 x obtain d0 where "d0 \<in> set (chunks st)" "chunk_id d0 = x"
        "sessionId d0 = sessionId c" by metis
      with keep [of d0] show ?thesis by metis
    next
      case 2
      with x cr obtain a where "a \<in> set ?act" "chunk_id a = x" by auto
      then have "a \<in> set (chunks st)" "sessionId a = sid" "chunk_id a = x"
        by (simp_all add: active_member)
      with keep [of a] 2 se show ?thesis by metis
    qed
  qed
  show ?thesis
    unfolding store_ok_def using c d' k' r' by simp
qed

lemma store_ok_deleteSession:
  assumes ok: "store_ok st"
  shows "store_ok (deleteSession st sid)"
proof -
  have d: "distinct (map chunk_id (chunks st))"
    and k: "\<forall>c\<in>set (chunks st). \<exists>k<nextId st. chunk_id c = idOf k"
    and r: "\<forall>c\<in>set (chunks st). \<forall>r\<in>set (childRefs c).
              \<exists>d\<in>set (chunks st). chunk_id d = r \<and> sessionId d = sessionId c"
    using ok unfolding store_ok_def by blast+
  have d': "distinct (map chunk_id (chunks (deleteSession st sid)))"
    using d by (simp add: deleteSession_def distinct_map_filter)
  have k': "\<forall>c\<in>set (chunks (deleteSession st sid)).
              \<exists>k<nextId (deleteSession st sid). chunk_id c = idOf k"
    using k by (simp add: deleteSession_def)
  have r': "\<forall>c\<in>set (chunks (deleteSession st sid)). \<forall>x\<in>set (childRefs c).
              \<exists>e\<in>set (chunks (deleteSession st sid)).
                 chunk_id e = x \<and> sessionId e = sessionId c"
  proof (intro ballI)
    fix c x
    assume "c \<in> set (chunks (deleteSession st sid))" and x: "x \<in> set (childRefs c)"
    then have c: "c \<in> set (chunks st)" "sessionId c \<noteq> sid"
      by (simp_all add: deleteSession_def)
    with r x obtain d0 where "d0 \<in> set (chunks st)" "chunk_id d0 = x"
      "sessionId d0 = sessionId c" by metis
    with c show "\<exists>e\<in>set (chunks (deleteSession st sid)).
                   chunk_id e = x \<and> sessionId e = sessionId c"
      by (auto simp: deleteSession_def)
  qed
  show ?thesis
    unfolding store_ok_def using d' k' r' by simp
qed


lemma idOf_small: "idOf (Suc 0) = ''ch_1''" "idOf 2 = ''ch_2''"
  by code_simp+

lemma twoChunkStore_eq:
  "twoChunkStore =
     \<lparr>chunks =
        [\<lparr>chunk_id = ''ch_0'', sessionId = ''s1'', content = leafContent,
          summary = None, status = Active, depth = 0, childRefs = [], createdAt = 0\<rparr>,
         \<lparr>chunk_id = ''ch_1'', sessionId = ''s1'', content = leafContent,
          summary = None, status = Active, depth = 0, childRefs = [], createdAt = 1\<rparr>],
      nextId = 2\<rparr>"
  by (simp add: twoChunkStore_def create_def emptyStore_def idOf_0 idOf_small Let_def)

lemma twoChunkStore_ok: "store_ok twoChunkStore"
  unfolding twoChunkStore_def by (intro store_ok_create store_ok_empty)

lemma twoChunkStore_active: "length (getActiveChunks twoChunkStore ''s1'') = 2"
  by (simp add: twoChunkStore_eq getActiveChunks_def)

lemma compactedStore_chunks:
  "chunks compactedStore =
     [\<lparr>chunk_id = ''ch_0'', sessionId = ''s1'', content = leafContent,
       summary = None, status = Compacted, depth = 0, childRefs = [], createdAt = 0\<rparr>,
      \<lparr>chunk_id = ''ch_1'', sessionId = ''s1'', content = leafContent,
       summary = None, status = Compacted, depth = 0, childRefs = [], createdAt = 1\<rparr>,
      \<lparr>chunk_id = ''ch_2'', sessionId = ''s1'',
       content = \<lparr>messages = [], metadata = emptyMetadata\<rparr>,
       summary = Some ''Summary X'', status = Active, depth = 1,
       childRefs = [''ch_0'', ''ch_1''], createdAt = 2\<rparr>]"
  by (simp add: compactedStore_def compact_session_def twoChunkStore_eq getActiveChunks_def
      idOf_small Let_def)

lemma compactedStore_ok: "store_ok compactedStore"
  unfolding compactedStore_def by (intro store_ok_compact twoChunkStore_ok)

text \<open>
  Claim C1. In a store that satisfies the invariant, \<open>compact\<close> returns null and leaves
  the store as it is when the session has at most one active chunk. Otherwise the chunks
  of the store afterwards are the former ones, those that were active in the session now
  \<open>compacted\<close>, followed by exactly one new chunk; the new chunk has a fresh id, is
  \<open>active\<close>, has depth one more than the maximum depth of the formerly active chunks, and
  is the only active chunk of the session.
\<close>

theorem compact_spec:
  assumes "store_ok st"
  shows "if length (getActiveChunks st sid) \<le> 1
         then compact_session st sid summ now = (st, None)
         else (\<exists>st' new.
           compact_session st sid summ now
             = (st', Some \<lparr>summaryChunk = new,
                           compactedChunks = map (\<lambda>c. c\<lparr>status := Compacted\<rparr>)
                                               (getActiveChunks st sid)\<rparr>)
           \<and> chunks st'
               = map (\<lambda>c. if c \<in> set (getActiveChunks st sid)
                          then c\<lparr>status := Compacted\<rparr> else c) (chunks st) @ [new]
           \<and> chunk_id new \<notin> chunk_id ` set (chunks st)
           \<and> status new = Active
           \<and> depth new = 1 + Max (depth ` set (getActiveChunks st sid))
           \<and> getActiveChunks st' sid = [new])"
proof (cases "length (getActiveChunks st sid) \<le> 1")
  case True
  then show ?thesis by (simp add: compact_noop)
next
  case False
  then have "1 < length (getActiveChunks st sid)" by simp
  from compact_effect [OF assms this, of summ now] False
  show ?thesis by auto
qed

theorem compact_spec_witness:
  "store_ok emptyStore \<and> compact_session emptyStore ''s1'' None 0 = (emptyStore, None)
   \<and> store_ok twoChunkStore \<and> length (getActiveChunks twoChunkStore ''s1'') = 2
   \<and> (\<exists>st' new.
         compact_session twoChunkStore ''s1'' (Some ''Summary X'') 2
           = (st', Some \<lparr>summaryChunk = new,
                 compactedChunks = map (\<lambda>c. c\<lparr>status := Compacted\<rparr>)
                                     (getActiveChunks twoChunkStore ''s1'')\<rparr>)
         \<and> status new = Active
         \<and> depth new = 1 + Max (depth ` set (getActiveChunks twoChunkStore ''s1''))
         \<and> getActiveChunks st' ''s1'' = [new])"
proof -
  have e: "length (getActiveChunks emptyStore ''s1'') \<le> 1"
    by (simp add: getActiveChunks_def emptyStore_def)
  have a: "compact_session emptyStore ''s1'' None 0 = (emptyStore, None)"
    using compact_spec [OF store_ok_empty, of "''s1''" None 0] e by simp
  have b: "\<not> length (getActiveChunks twoChunkStore ''s1'') \<le> 1"
    by (simp add: twoChunkStore_active)
  have c: "\<exists>st' new.
         compact_session twoChunkStore ''s1'' (Some ''Summary X'') 2
           = (st', Some \<lparr>summaryChunk = new,
                 compactedChunks = map (\<lambda>c. c\<lparr>status := Compacted\<rparr>)
                                     (getActiveChunks twoChunkStore ''s1'')\<rparr>)
         \<and> status new = Active
         \<and> depth new = 1 + Max (depth ` set (getActiveChunks twoChunkStore ''s1''))
         \<and> getActiveChunks st' ''s1'' = [new]"
    using compact_spec [OF twoChunkStore_ok, of "''s1''" "Some ''Summary X''" 2] b
    by (simp only: if_False) blast
  show ?thesis
    using store_ok_empty a twoChunkStore_ok twoChunkStore_active c by blast
qed

theorem expand_children_witness:
  "store_ok compactedStore
   \<and> length (expand compactedStore ''ch_2'' True) = 3
   \<and> map chunk_id (expand compactedStore ''ch_2'' True) = [''ch_2'', ''ch_0'', ''ch_1'']
   \<and> length (expand compactedStore ''ch_2'' False) = 1
   \<and> er_chunk_count (expandTool_execute host0 compactedStore
        \<lparr>arg_chunk_id = ''ch_2'', arg_include_children = Some True,
         arg_preview_only = None\<rparr>) = Some 3"
proof -
  let ?c = "\<lparr>chunk_id = ''ch_2'', sessionId = ''s1'',
       content = \<lparr>messages = [], metadata = emptyMetadata\<rparr>,
       summary = Some ''Summary X'', status = Active, depth = 1,
       childRefs = [''ch_0'', ''ch_1''], createdAt = 2\<rparr>"
  have m: "?c \<in> set (chunks compactedStore)"
    by (simp add: compactedStore_chunks)
  from expand_children [OF compactedStore_ok m, of host0 None]
  show ?thesis
    using compactedStore_ok by simp
qed


section \<open>The generated summary\<close>

lemma set_firstOccurrences: "set (firstOccurrences xs) = set xs"
  by (simp add: firstOccurrences_def)

lemma firstOccurrences_snoc:
  "firstOccurrences (xs @ [x]) = setAdd (firstOccurrences xs) x"
  by (simp add: firstOccurrences_def setAdd_def)

lemma foldl_setAdd: "foldl setAdd [] xs = firstOccurrences xs"
proof (induction xs rule: rev_induct)
  case Nil
  then show ?case by (simp add: firstOccurrences_def)
next
  case (snoc x xs)
  then show ?case by (simp add: firstOccurrences_snoc)
qed

lemma summaryStep_explicit:
  "summaryStep \<lparr>allTools = a, allFiles = f, totalMessages = n\<rparr> c
     = \<lparr>allTools = foldl setAdd a (orNil (tools_used (metadata (content c)))),
        allFiles = foldl setAdd f (orNil (files_modified (metadata (content c)))),
        totalMessages = n + length (messages (content c))\<rparr>"
  by (simp add: summaryStep_def orNil_def split: option.splits)

lemma foldl_summaryStep:
  "foldl summaryStep \<lparr>allTools = [], allFiles = [], totalMessages = 0\<rparr> cs
     = \<lparr>allTools = foldl setAdd []
                      (concat (map (\<lambda>c. orNil (tools_used (metadata (content c)))) cs)),
        allFiles = foldl setAdd []
                      (concat (map (\<lambda>c. orNil (files_modified (metadata (content c)))) cs)),
        totalMessages = sum_list (map (\<lambda>c. length (messages (content c))) cs)\<rparr>"
proof (induction cs rule: rev_induct)
  case Nil
  then show ?case by simp
next
  case (snoc c cs)
  show ?case
    by (simp add: snoc summaryStep_explicit)
qed

lemma generateCompactionSummary_eq: "generateCompactionSummary cs = metadataSummary cs"
proof -
  let ?tools = "firstOccurrences
                  (concat (map (\<lambda>c. orNil (tools_used (metadata (content c)))) cs))"
  let ?files = "firstOccurrences
                  (concat (map (\<lambda>c. orNil (files_modified (metadata (content c)))) cs))"
  have t: "take 3 ?files = ?files" if "length ?files \<le> 3"
    using that by simp
  show ?thesis
    unfolding generateCompactionSummary_def metadataSummary_def foldl_summaryStep
      foldl_setAdd Let_def
    using t by (simp add: not_le)
qed

lemma findInParts_truthy: "findInParts ps = Some t \<Longrightarrow> t \<noteq> []"
  by (induction ps) (auto simp: truthy_def orEmpty_def split: if_splits option.splits)

lemma findInMessages_truthy: "findInMessages ms = Some t \<Longrightarrow> t \<noteq> []"
  by (induction ms) (auto dest: findInParts_truthy split: option.splits)

lemma fetch_truthy: "fetchCompactionSummary cl sid = Some t \<Longrightarrow> t \<noteq> []"
  by (auto simp: fetchCompactionSummary_def dest: findInMessages_truthy
      split: option.splits ClientResult.splits)

lemma orElse_fetch:
  "orElse (fetchCompactionSummary cl sid) d
     = (case fetchCompactionSummary cl sid of Some t \<Rightarrow> t | None \<Rightarrow> d)"
  by (cases "fetchCompactionSummary cl sid")
     (auto simp: orElse_def truthy_def orEmpty_def dest: fetch_truthy)


lemma store_ok_finalize:
  assumes "store_ok (store s)"
  shows "store_ok (store (fst (finalize p s sid now)))"
proof (cases "hasMessages (tracker s) sid")
  case False
  then show ?thesis using assms by (simp add: finalize_def)
next
  case True
  have "store (fst (finalize p s sid now))
      = fst (create (store s) sid
               \<lparr>messages = getMessages (tracker s) sid now,
                metadata = deriveMetadata p (getMessages (tracker s) sid now)\<rparr> now)"
    using True by (simp add: finalize_def Let_def split: prod.splits)
  then show ?thesis
    using store_ok_create [OF assms] by simp
qed

text \<open>
  Claim C3. When the \<open>session.compacted\<close> handler compacts (more than one active chunk
  after the pending drafts are flushed), the summary of the chunk it produces is the text
  extracted from the host's messages if there is one, and otherwise the generated text
  \<open>"<total messages> messages across <n> chunks; tools: ...; files: ..."\<close> of
  \<^const>\<open>metadataSummary\<close>: the tools and files segments only when non-empty, at most 3
  files, then \<open>+K more\<close>. Called directly, \<open>compact\<close> takes the caller's summary, and the
  same generated text without one.
\<close>

theorem compaction_summary_text:
  assumes "store_ok (store s)"
    and "s1 = fst (finalize (pathsOfInput env) s sid now)"
    and "1 < length (getActiveChunks (store s1) sid)"
  shows "(\<exists>new. getActiveChunks (store (handleSessionCompacted env s sid now)) sid = [new]
            \<and> summary new
                = Some (case fetchCompactionSummary (openCodeClient env) sid of
                          Some t \<Rightarrow> t
                        | None \<Rightarrow> metadataSummary (getActiveChunks (store s1) sid)))
         \<and> (\<exists>st' r. compact_session (store s1) sid summ now = (st', Some r)
               \<and> getActiveChunks st' sid = [summaryChunk r]
               \<and> summary (summaryChunk r)
                   = Some (case summ of
                             Some t \<Rightarrow> t
                           | None \<Rightarrow> metadataSummary (getActiveChunks (store s1) sid)))"
proof -
  have ok: "store_ok (store s1)"
    using assms(1,2) by (simp add: store_ok_finalize)
  let ?chosen = "orElse (fetchCompactionSummary (openCodeClient env) sid)
                   (generateCompactionSummary (getActiveChunks (store s1) sid))"
  have h: "store (handleSessionCompacted env s sid now)
         = fst (compact_session (store s1) sid (Some ?chosen) now)"
    using assms(2,3) by (simp add: handleSessionCompacted_def Let_def)
  from compact_effect [OF ok assms(3), of "Some ?chosen" now]
  obtain st' new where "compact_session (store s1) sid (Some ?chosen) now
        = (st', Some \<lparr>summaryChunk = new,
              compactedChunks = map (\<lambda>c. c\<lparr>status := Compacted\<rparr>)
                                  (getActiveChunks (store s1) sid)\<rparr>)"
    and "getActiveChunks st' sid = [new]" and "summary new = Some ?chosen"
    by auto
  then have first: "\<exists>new. getActiveChunks (store (handleSessionCompacted env s sid now)) sid
                       = [new]
            \<and> summary new
                = Some (case fetchCompactionSummary (openCodeClient env) sid of
                          Some t \<Rightarrow> t
                        | None \<Rightarrow> metadataSummary (getActiveChunks (store s1) sid))"
    using h by (simp add: orElse_fetch generateCompactionSummary_eq)
  from compact_effect [OF ok assms(3), of summ now]
  obtain st2 new2 where "compact_session (store s1) sid summ now
        = (st2, Some \<lparr>summaryChunk = new2,
              compactedChunks = map (\<lambda>c. c\<lparr>status := Compacted\<rparr>)
                                  (getActiveChunks (store s1) sid)\<rparr>)"
    and "getActiveChunks st2 sid = [new2]"
    and "summary new2 = Some (case summ of Some t \<Rightarrow> t
            | None \<Rightarrow> generateCompactionSummary (getActiveChunks (store s1) sid))"
    by auto
  then have second: "\<exists>st' r. compact_session (store s1) sid summ now = (st', Some r)
               \<and> getActiveChunks st' sid = [summaryChunk r]
               \<and> summary (summaryChunk r)
                   = Some (case summ of
                             Some t \<Rightarrow> t
                           | None \<Rightarrow> metadataSummary (getActiveChunks (store s1) sid))"
    unfolding generateCompactionSummary_eq by simp
  from first second show ?thesis by simp
qed

lemma showNat_small:
  "showNat 1 = ''1''" "showNat 2 = ''2''" "showNat (Suc 0) = ''1''"
  "showNat (Suc (Suc 0)) = ''2''"
  by code_simp+

lemma metaState_store:
  "store metaState =
     \<lparr>chunks =
        [\<lparr>chunk_id = ''ch_0'', sessionId = ''s1'', content = leafContent,
          summary = None, status = Active, depth = 0, childRefs = [], createdAt = 0\<rparr>,
         \<lparr>chunk_id = ''ch_1'', sessionId = ''s1'', content = metaContent,
          summary = None, status = Active, depth = 0, childRefs = [], createdAt = 1\<rparr>],
      nextId = 2\<rparr>"
  by (simp add: metaState_def create_def emptyStore_def idOf_0 idOf_small Let_def)

lemma metaState_ok: "store_ok (store metaState)"
  unfolding metaState_def by (simp add: store_ok_create store_ok_empty)

lemma metaState_finalize: "fst (finalize (pathsOfInput env0) metaState ''s1'' 2) = metaState"
  by (simp add: finalize_def hasMessages_def draftsOf_def metaState_def)

lemma metaState_summary:
  "metadataSummary (getActiveChunks (store metaState) ''s1'')
     = ''2 messages across 2 chunks; tools: read, write; files: a.ts, b.ts, c.ts +1 more''"
  by (simp add: metaState_store getActiveChunks_def metadataSummary_def firstOccurrences_def
      leafContent_def metaContent_def emptyMetadata_def orNil_def showNat_small Let_def)

theorem compaction_summary_text_witness:
  "store_ok (store metaState)
   \<and> 1 < length (getActiveChunks (store metaState) ''s1'')
   \<and> (\<exists>new. getActiveChunks (store (handleSessionCompacted env0 metaState ''s1'' 2)) ''s1''
               = [new]
          \<and> summary new
              = Some ''2 messages across 2 chunks; tools: read, write; files: a.ts, b.ts, c.ts +1 more'')"
proof -
  have f: "metaState = fst (finalize (pathsOfInput env0) metaState ''s1'' 2)"
    by (simp add: metaState_finalize)
  have l: "1 < length (getActiveChunks (store metaState) ''s1'')"
    by (simp add: metaState_store getActiveChunks_def)
  have n: "fetchCompactionSummary (openCodeClient env0) ''s1'' = None"
    by (simp add: fetchCompactionSummary_def env0_def)
  from compaction_summary_text [OF metaState_ok f l, of None]
  show ?thesis
    using metaState_ok l by (simp add: n metaState_summary)
qed


section \<open>Only text and tool parts come from the event feed\<close>

lemma draftsTextOrTool_iff: "draftsTextOrTool tr \<longleftrightarrow> (\<forall>sm\<in>set tr. draftsOK (snd sm))"
  by (simp add: draftsTextOrTool_def draftsOK_def list_all_iff)

lemma chunksTextOrTool_iff:
  "chunksTextOrTool st
     \<longleftrightarrow> (\<forall>c\<in>set (chunks st). \<forall>m\<in>set (messages (content c)).
            \<forall>p\<in>set (msg_parts m). textOrTool p)"
  by (simp add: chunksTextOrTool_def list_all_iff)

lemma set_update_cases:
  "x \<in> set (AList.update k v xs) \<Longrightarrow> x = (k, v) \<or> x \<in> set xs"
  by (induction xs) (auto split: if_splits)

lemma set_delete_subset: "set (AList.delete k xs) \<subseteq> set xs"
  by (induction xs) auto

lemma draftsOK_draftsOf:
  assumes "draftsTextOrTool tr"
  shows "draftsOK (draftsOf tr sid)"
proof (cases "map_of tr sid")
  case None
  then show ?thesis by (simp add: draftsOf_def draftsOK_def)
next
  case (Some ms)
  then have "(sid, ms) \<in> set tr" by (rule map_of_SomeD)
  with assms have "draftsOK ms" by (auto simp: draftsTextOrTool_iff)
  with Some show ?thesis by (simp add: draftsOf_def)
qed

lemma draftsTextOrTool_update:
  "draftsTextOrTool tr \<Longrightarrow> draftsOK ms \<Longrightarrow> draftsTextOrTool (AList.update sid ms tr)"
  by (auto simp: draftsTextOrTool_iff dest!: set_update_cases)

lemma draftsTextOrTool_clear:
  "draftsTextOrTool tr \<Longrightarrow> draftsTextOrTool (clearSession tr sid)"
  using set_delete_subset [of sid tr]
  by (auto simp: draftsTextOrTool_iff clearSession_def)

lemma draftsTextOrTool_ensure:
  assumes "draftsTextOrTool tr"
  shows "draftsTextOrTool (ensureMessage tr sid mid role)"
proof -
  have "draftsOK (draftsOf tr sid @ [(mid, \<lparr>draft_role = role, draft_parts = []\<rparr>)])"
    using draftsOK_draftsOf [OF assms, of sid] by (auto simp: draftsOK_def)
  then show ?thesis
    using assms by (simp add: ensureMessage_def Let_def draftsTextOrTool_update)
qed

lemma draftsTextOrTool_addPart:
  assumes "draftsTextOrTool tr" and "textOrTool p" and "addPart tr sid mid pid p = Inr tr'"
  shows "draftsTextOrTool tr'"
proof -
  from assms(3) obtain d where d: "map_of (draftsOf tr sid) mid = Some d"
    and tr': "tr' = AList.update sid
                 (AList.update mid (d\<lparr>draft_parts := AList.update pid p (draft_parts d)\<rparr>)
                    (draftsOf tr sid)) tr"
    by (auto simp: addPart_def split: option.splits)
  have ok: "draftsOK (draftsOf tr sid)"
    using assms(1) by (rule draftsOK_draftsOf)
  from d have "(mid, d) \<in> set (draftsOf tr sid)" by (rule map_of_SomeD)
  with ok have "\<forall>pp\<in>set (draft_parts d). textOrTool (snd pp)"
    by (auto simp: draftsOK_def)
  with assms(2) have "\<forall>pp\<in>set (AList.update pid p (draft_parts d)). textOrTool (snd pp)"
    by (auto dest!: set_update_cases)
  with ok have "draftsOK (AList.update mid
                   (d\<lparr>draft_parts := AList.update pid p (draft_parts d)\<rparr>) (draftsOf tr sid))"
    unfolding draftsOK_def by (auto dest!: set_update_cases)
  then show ?thesis
    using assms(1) tr' by (simp add: draftsTextOrTool_update)
qed

lemma textOrTool_chunkPartOf: "textOrTool (chunkPartOf part)"
  by (simp add: textOrTool_def chunkPartOf_def)


lemma messagesOK_getMessages:
  assumes "draftsTextOrTool tr"
  shows "\<forall>m\<in>set (getMessages tr sid now). \<forall>p\<in>set (msg_parts m). textOrTool p"
  using draftsOK_draftsOf [OF assms, of sid]
  by (auto simp: getMessages_def toChunkMessage_def draftsOK_def)

lemma onlyTextOrTool_finalize:
  assumes "onlyTextOrTool s"
  shows "onlyTextOrTool (fst (finalize p s sid now))"
proof (cases "hasMessages (tracker s) sid")
  case False
  then show ?thesis using assms by (simp add: finalize_def)
next
  case True
  let ?msgs = "getMessages (tracker s) sid now"
  let ?c = "snd (create (store s) sid \<lparr>messages = ?msgs, metadata = deriveMetadata p ?msgs\<rparr> now)"
  have f: "fst (finalize p s sid now)
         = s\<lparr>store := fst (create (store s) sid
                 \<lparr>messages = ?msgs, metadata = deriveMetadata p ?msgs\<rparr> now),
             tracker := clearSession (tracker s) sid\<rparr>"
    using True by (simp add: finalize_def Let_def split: prod.splits)
  have t: "draftsTextOrTool (tracker s)" and c: "chunksTextOrTool (store s)"
    using assms by (simp_all add: onlyTextOrTool_def)
  have "chunksTextOrTool (fst (create (store s) sid
          \<lparr>messages = ?msgs, metadata = deriveMetadata p ?msgs\<rparr> now))"
    using c messagesOK_getMessages [OF t, of sid now]
    by (auto simp: chunksTextOrTool_iff create_def Let_def)
  then show ?thesis
    using t by (simp add: f onlyTextOrTool_def draftsTextOrTool_clear)
qed

lemma chunksTextOrTool_compact:
  assumes "chunksTextOrTool st"
  shows "chunksTextOrTool (fst (compact_session st sid summ now))"
proof (cases "1 < length (getActiveChunks st sid)")
  case False
  then show ?thesis using assms by (simp add: compact_noop)
next
  case True
  have "messages (content (if b then c\<lparr>status := Compacted\<rparr> else c)) = messages (content c)"
    for b and c :: Chunk
    by simp
  then show ?thesis
    using assms unfolding compact_unfold [OF True] Let_def chunksTextOrTool_iff
    by auto
qed

lemma chunksTextOrTool_deleteSession:
  "chunksTextOrTool st \<Longrightarrow> chunksTextOrTool (deleteSession st sid)"
  by (auto simp: chunksTextOrTool_iff deleteSession_def)

lemma onlyTextOrTool_compacted:
  assumes "onlyTextOrTool s"
  shows "onlyTextOrTool (handleSessionCompacted env s sid now)"
proof -
  let ?s1 = "fst (finalize (pathsOfInput env) s sid now)"
  have s1: "onlyTextOrTool ?s1"
    using assms by (rule onlyTextOrTool_finalize)
  then have "onlyTextOrTool (?s1\<lparr>store := fst (compact_session (store ?s1) sid summ now)\<rparr>)" for summ
    by (simp add: onlyTextOrTool_def chunksTextOrTool_compact)
  with s1 show ?thesis
    by (simp add: handleSessionCompacted_def Let_def)
qed

lemma onlyTextOrTool_part:
  assumes "onlyTextOrTool s" and "handleMessagePartUpdated s part = Inr s'"
  shows "onlyTextOrTool s'"
proof (cases "acceptedPart part")
  case False
  with assms show ?thesis by (simp add: part_filter_eq)
next
  case True
  with assms(2) obtain tr where
    a: "addPart (tracker s) (ep_sessionID part) (ep_messageID part) (ep_id part)
          (chunkPartOf part) = Inr tr"
    and s': "s' = s\<lparr>tracker := tr\<rparr>"
    by (auto simp: part_filter_eq split: sum.splits)
  have "draftsTextOrTool tr"
    using assms(1) textOrTool_chunkPartOf a
    by (auto simp: onlyTextOrTool_def intro: draftsTextOrTool_addPart)
  with assms(1) s' show ?thesis by (simp add: onlyTextOrTool_def)
qed

lemma onlyTextOrTool_event:
  assumes "onlyTextOrTool s" and "handleEvent env s ev now = Inr s'"
  shows "onlyTextOrTool s'"
proof (cases ev)
  case (SessionIdle sid)
  with assms show ?thesis
    by (auto simp: handleEvent_def handleSessionIdle_def onlyTextOrTool_finalize
        split: if_splits)
next
  case (SessionCompacted sid)
  with assms show ?thesis
    by (auto simp: handleEvent_def onlyTextOrTool_compacted split: if_splits)
next
  case (SessionDeleted sid)
  with assms show ?thesis
    by (auto simp: handleEvent_def handleSessionDeleted_def onlyTextOrTool_def
        chunksTextOrTool_deleteSession draftsTextOrTool_clear split: if_splits)
next
  case (MessageUpdated m)
  with assms show ?thesis
    by (auto simp: handleEvent_def handleMessageUpdated_def onlyTextOrTool_def
        draftsTextOrTool_ensure split: if_splits)
next
  case (MessagePartUpdated p)
  with assms show ?thesis
    by (auto simp: handleEvent_def dest: onlyTextOrTool_part split: if_splits)
next
  case (OtherEvent t)
  with assms show ?thesis
    by (auto simp: handleEvent_def split: if_splits)
qed

lemma onlyTextOrTool_run:
  "onlyTextOrTool s \<Longrightarrow> onlyTextOrTool (runEvents env s evs)"
proof (induction evs arbitrary: s)
  case Nil
  then show ?case by simp
next
  case (Cons e evs)
  obtain ev now where e: "e = (ev, now)" by (cases e)
  show ?case
  proof (cases "handleEvent env s ev now")
    case (Inl err)
    with Cons e show ?thesis by simp
  next
    case (Inr s')
    with Cons.prems have "onlyTextOrTool s'" by (rule onlyTextOrTool_event)
    with Cons.IH Inr e show ?thesis by simp
  qed
qed

lemma onlyTextOrTool_initial: "onlyTextOrTool initialState"
  by (simp add: onlyTextOrTool_def initialState_def draftsTextOrTool_def
      chunksTextOrTool_def emptyStore_def)

text \<open>
  Claim C9. The \<open>message.part.updated\<close> handler returns without touching the state for a
  part whose type is neither \<open>text\<close> nor \<open>tool\<close>. Hence in every state reached from the
  initial one by a run of the event feed, every part of every draft message and of every
  chunk is a text part or a tool part: \<open>reasoning\<close> and \<open>file\<close> parts never get there.
\<close>

theorem feed_only_text_or_tool:
  "(ep_type part \<noteq> ''text'' \<and> ep_type part \<noteq> ''tool''
      \<longrightarrow> handleMessagePartUpdated s part = Inr s)
   \<and> onlyTextOrTool (runEvents env initialState evs)"
  by (simp add: handleMessagePartUpdated_def onlyTextOrTool_run onlyTextOrTool_initial)

lemma feed_chunks:
  "chunks (store (runEvents env0 initialState feed)) =
     [\<lparr>chunk_id = ''ch_0'', sessionId = ''s1'',
       content = \<lparr>messages =
           [\<lparr>msg_id = ''msg-1'', msg_role = Assistant,
             msg_parts = [\<lparr>part_type = TextPart, part_text = Some ''Hello'',
                           part_tool = None, part_input = None, part_output = None\<rparr>],
             msg_timestamp = 4\<rparr>],
         metadata = \<lparr>tools_used = Some [], files_modified = Some [], outcome = None\<rparr>\<rparr>,
       summary = None, status = Active, depth = 0, childRefs = [], createdAt = 4\<rparr>]"
  by (simp add: feed_def handleEvent_def eventType_def HANDLED_EVENTS_def
      handleMessageUpdated_def handleMessagePartUpdated_def handleSessionIdle_def
      initialState_def emptyStore_def ensureMessage_def addPart_def draftsOf_def roleOf_def
      reasoningEvent_def textEvent_def runningToolEvent_def stateStatus_def truthy_def
      orEmpty_def trim_def isWhiteSpace_def finalize_def hasMessages_def getMessages_def
      toChunkMessage_def deriveMetadata_def toolParts_def create_def clearSession_def
      env0_def noPaths_def idOf_0 map_filter_simps Let_def)

theorem feed_only_text_or_tool_witness:
  "ep_type reasoningEvent \<noteq> ''text'' \<and> ep_type reasoningEvent \<noteq> ''tool''
   \<and> handleMessagePartUpdated draftState reasoningEvent = Inr draftState
   \<and> onlyTextOrTool (runEvents env0 initialState feed)
   \<and> map (\<lambda>c. map (\<lambda>m. map part_type (msg_parts m)) (messages (content c)))
         (chunks (store (runEvents env0 initialState feed))) = [[[TextPart]]]"
proof -
  have t: "ep_type reasoningEvent \<noteq> ''text'' \<and> ep_type reasoningEvent \<noteq> ''tool''"
    by (simp add: reasoningEvent_def)
  have c: "map (\<lambda>c. map (\<lambda>m. map part_type (msg_parts m)) (messages (content c)))
         (chunks (store (runEvents env0 initialState feed))) = [[[TextPart]]]"
    by (simp add: feed_chunks)
  from t c feed_only_text_or_tool [of reasoningEvent draftState env0 feed]
  show ?thesis by simp
qed

section \<open>The store invariant holds in every reachable state\<close>

lemma store_ok_event:
  assumes "store_ok (store s)" and "handleEvent env s ev now = Inr s'"
  shows "store_ok (store s')"
proof (cases ev)
  case (SessionIdle sid)
  with assms show ?thesis
    by (auto simp: handleEvent_def handleSessionIdle_def store_ok_finalize split: if_splits)
next
  case (SessionCompacted sid)
  have "store_ok (store (handleSessionCompacted env s sid now))"
    using store_ok_finalize [OF assms(1), of "pathsOfInput env" sid now]
    by (simp add: handleSessionCompacted_def Let_def store_ok_compact)
  with assms SessionCompacted show ?thesis
    by (auto simp: handleEvent_def split: if_splits)
next
  case (SessionDeleted sid)
  with assms show ?thesis
    by (auto simp: handleEvent_def handleSessionDeleted_def store_ok_deleteSession
        split: if_splits)
next
  case (MessageUpdated m)
  with assms show ?thesis
    by (auto simp: handleEvent_def handleMessageUpdated_def split: if_splits)
next
  case (MessagePartUpdated p)
  with assms show ?thesis
    by (auto simp: handleEvent_def part_filter_eq split: if_splits sum.splits)
next
  case (OtherEvent t)
  with assms show ?thesis
    by (auto simp: handleEvent_def split: if_splits)
qed

lemma store_ok_run:
  "store_ok (store s) \<Longrightarrow> store_ok (store (runEvents env s evs))"
proof (induction evs arbitrary: s)
  case Nil
  then show ?case by simp
next
  case (Cons e evs)
  obtain ev now where e: "e = (ev, now)" by (cases e)
  show ?case
  proof (cases "handleEvent env s ev now")
    case (Inl err)
    with Cons e show ?thesis by simp
  next
    case (Inr s')
    with Cons.prems have "store_ok (store s')" by (rule store_ok_event)
    with Cons.IH Inr e show ?thesis by simp
  qed
qed

lemma store_ok_reachable: "store_ok (store (runEvents env initialState evs))"
  by (rule store_ok_run) (simp add: initialState_def store_ok_empty)

end
